theory Spec2Isabelle
  imports Complex_Main
begin

section \<open>Python values\<close>

text \<open>
  The answers of a quiz session are dynamically typed: an \<open>int\<close> for a single-choice
  question, a list of \<open>int\<close> for a multiple-choice question, a list of \<open>str\<close> for a
  sequence question (\<open>handlers/student.py\<close> appends \<open>str(option_index)\<close>). The correct
  answer of a question is whatever \<open>json.loads\<close> returned. Both are values of
  \<open>pyval\<close>; on integers, strings and lists of them Python's \<open>==\<close> is structural
  equality, which is HOL's \<open>=\<close> on this datatype. Floats, booleans, \<open>None\<close> and
  dictionaries inside an answer are not modelled.
\<close>

datatype pyval = VInt int | VStr string | VList "pyval list"

datatype py_error = TypeError | IndexError | AttributeError | ValueError | KeyError

definition len :: "'a list \<Rightarrow> int" where
  "len xs = int (length xs)"

text \<open>\<open>xs[i]\<close>: a negative index counts from the end, an index out of range raises.\<close>

definition py_get :: "'a list \<Rightarrow> int \<Rightarrow> py_error + 'a" where
  "py_get xs i =
     (let j = (if i < 0 then len xs + i else i)
      in if 0 \<le> j \<and> j < len xs then Inr (xs ! nat j) else Inl IndexError)"

text \<open>\<open>str(i)\<close> of an integer: its decimal digits, with a minus sign when negative.\<close>

definition digit_char :: "nat \<Rightarrow> char" where
  "digit_char d = ''0123456789'' ! d"

function str_nat :: "nat \<Rightarrow> string" where
  "str_nat n = (if n < 10 then [digit_char n] else str_nat (n div 10) @ [digit_char (n mod 10)])"
  by pat_completeness auto
termination
  by (relation "measure id") auto

declare str_nat.simps [simp del]

definition py_str :: "int \<Rightarrow> string" where
  "py_str i = (if i < 0 then CHR ''-'' # str_nat (nat (- i)) else str_nat (nat i))"

text \<open>
  \<open>x[0]\<close> on a value: the first element of a list, the first character of a string (as
  a one-character string); an empty one raises \<open>IndexError\<close>, an \<open>int\<close> is not
  subscriptable.
\<close>

definition py_index0 :: "pyval \<Rightarrow> py_error + pyval" where
  "py_index0 v =
     (case v of
        VList [] \<Rightarrow> Inl IndexError
      | VList (x # _) \<Rightarrow> Inr x
      | VStr [] \<Rightarrow> Inl IndexError
      | VStr (c # _) \<Rightarrow> Inr (VStr [c])
      | VInt _ \<Rightarrow> Inl TypeError)"

fun is_VList :: "pyval \<Rightarrow> bool" where
  "is_VList (VList _) = True"
| "is_VList _ = False"

text \<open>
  \<open>set(x)\<close>: the set of the elements of a list (a list element is unhashable and raises
  \<open>TypeError\<close>), the set of the characters of a string; an \<open>int\<close> is not iterable.
\<close>

definition py_set :: "pyval \<Rightarrow> py_error + pyval set" where
  "py_set v =
     (case v of
        VList xs \<Rightarrow> if list_ex is_VList xs then Inl TypeError else Inr (set xs)
      | VStr s \<Rightarrow> Inr (set (map (\<lambda>c. VStr [c]) s))
      | VInt _ \<Rightarrow> Inl TypeError)"

section \<open>Data model\<close>

text \<open>
  A question snapshot, the dictionary built in \<open>QuizService.start_quiz\<close>. The columns
  \<open>options\<close> and \<open>correct_answer\<close> hold JSON text; the model holds the decoded values.
\<close>

record question =
  qid :: int
  qtext :: string
  options :: "string list"
  correct_answer :: pyval
  question_type :: string
  explanation :: "string option"
  media_url :: "string option"

text \<open>A row of the table \<open>questions\<close> (\<open>database/models.py\<close>).\<close>

record question_row =
  row_topic_id :: int
  row_question :: question

text \<open>
  The per-user dictionary \<open>quiz_data\<close>. The keys of \<open>answers\<close> are \<open>str(question_id)\<close>.
  Times are seconds.
\<close>

record quiz_data =
  topic_id :: int
  questions :: "question list"
  current_question :: int
  answers :: "string \<rightharpoonup> pyval"
  start_time :: int
  is_completed :: bool

record test_result =
  tr_user_id :: int
  tr_topic_id :: int
  score :: int
  max_score :: int
  percentage :: rat
  time_spent :: int

record achievement =
  ach_user_id :: int
  ach_name :: string
  ach_description :: string
  ach_badge_url :: string
  ach_points :: int

text \<open>
  A row of the table \<open>users\<close> together with its two relationships, \<open>user.results\<close> and
  \<open>user.achievements\<close>.
\<close>

record user_row =
  user_pk :: int
  last_active :: int
  results :: "test_result list"
  achievements :: "achievement list"

text \<open>
  The state the quiz engine works on: the dictionary \<open>active_quizzes\<close> of the service
  object, the tables it reads and writes (\<open>users\<close> is keyed by \<open>telegram_id\<close>, which is
  unique), and the clock that \<open>datetime.now()\<close> reads.
\<close>

record world =
  active_quizzes :: "int \<rightharpoonup> quiz_data"
  users :: "int \<rightharpoonup> user_row"
  question_table :: "question_row list"
  topic_ids :: "int list"
  clock :: int

text \<open>
  The user-facing messages of the service. In the source they are Russian strings:
  \<open>NoActiveQuiz\<close> is "no active test", \<open>QuestionsOver\<close> is "the questions have run out",
  \<open>UserNotFound\<close> is "user not found", \<open>NoQuestions\<close> is "no questions available for
  the chosen topic", \<open>NoTopics\<close> is "no topics available".
\<close>

datatype message = NoActiveQuiz | QuestionsOver | UserNotFound | NoQuestions | NoTopics

record question_result =
  qr_question :: string
  qr_user_answer :: "pyval option"
  qr_correct_answer :: pyval
  qr_is_correct :: bool
  qr_explanation :: "string option"

record quiz_outcome =
  correct_count :: int
  total_questions :: int
  out_percentage :: rat
  question_results :: "question_result list"

text \<open>The dictionary \<open>complete_quiz\<close> returns: a failure with its message, or the outcome.\<close>

datatype complete_res = CFail message | CSuccess quiz_outcome

text \<open>
  The dictionary \<open>submit_answer\<close> and \<open>skip_question\<close> return: a failure, or success with
  \<open>is_completed\<close> and, when completed, the result of \<open>complete_quiz\<close>.
\<close>

datatype submit_res = SFail message | SOk bool "complete_res option"

datatype start_res = StartFail message | StartOk quiz_data

section \<open>Scoring\<close>

text \<open>
  The body of the loop of \<open>complete_quiz\<close> that computes \<open>is_correct\<close> for one question
  from \<open>answers.get(question_id, None)\<close>.
\<close>

definition is_correct :: "question \<Rightarrow> pyval option \<Rightarrow> py_error + bool" where
  "is_correct q user_answer =
     (case user_answer of
        None \<Rightarrow> Inr False
      | Some a \<Rightarrow>
          if question_type q = ''single'' then
            (case py_index0 (correct_answer q) of
               Inl e \<Rightarrow> Inl e
             | Inr c \<Rightarrow> Inr (a = c))
          else if question_type q = ''multiple'' then
            (case py_set a of
               Inl e \<Rightarrow> Inl e
             | Inr A \<Rightarrow>
                 (case py_set (correct_answer q) of
                    Inl e \<Rightarrow> Inl e
                  | Inr B \<Rightarrow> Inr (A = B)))
          else if question_type q = ''sequence'' then Inr (a = correct_answer q)
          else Inr False)"

text \<open>
  The loop itself, with its two accumulators; an exception raised while scoring a
  question ends it.
\<close>

fun score_questions ::
  "(string \<rightharpoonup> pyval) \<Rightarrow> question list \<Rightarrow> int \<Rightarrow> question_result list
     \<Rightarrow> py_error + (int \<times> question_result list)" where
  "score_questions ans [] cc qrs = Inr (cc, qrs)"
| "score_questions ans (q # qs) cc qrs =
     (let user_answer = ans (py_str (qid q)) in
      case is_correct q user_answer of
        Inl e \<Rightarrow> Inl e
      | Inr ic \<Rightarrow>
          score_questions ans qs (if ic then cc + 1 else cc)
            (qrs @ [\<lparr>qr_question = qtext q, qr_user_answer = user_answer,
                     qr_correct_answer = correct_answer q, qr_is_correct = ic,
                     qr_explanation = explanation q\<rparr>]))"

text \<open>
  \<open>round(x, 1)\<close>. The source computes in floating point; the model computes with exact
  rationals and rounds half to even.
\<close>

definition py_round1 :: "rat \<Rightarrow> rat" where
  "py_round1 x =
     (let y = x * 10; f = \<lfloor>y\<rfloor>; d = y - of_int f
      in of_int (if d < 1 / 2 then f else if 1 / 2 < d then f + 1
                 else if even f then f else f + 1) / 10)"


section \<open>Achievements\<close>

text \<open>
  The literals of \<open>check_achievements\<close> are Cyrillic; a \<open>string\<close> holds bytes, so each
  literal is given by its UTF-8 bytes. In Latin letters they read: "Pervyj test" (first
  test) with the description "Projden pervyj test!", "Otlichnik" (perfect score) with
  "Poluchite 100% v teste", and "Znatok istorii" (history expert) with "Projdite 10
  testov".
\<close>

definition name_first_test :: string where
  "name_first_test =
     map char_of [208, 159, 208, 181, 209, 128, 208, 178, 209, 139, 208, 185, 32, 209,
     130, 208, 181, 209, 129, 209, 130 :: nat]"

definition descr_first_test :: string where
  "descr_first_test =
     map char_of [208, 159, 209, 128, 208, 190, 208, 185, 208, 180, 208, 181, 208, 189,
     32, 208, 191, 208, 181, 209, 128, 208, 178, 209, 139, 208, 185, 32, 209, 130, 208,
     181, 209, 129, 209, 130, 33 :: nat]"

definition name_perfect_score :: string where
  "name_perfect_score =
     map char_of [208, 158, 209, 130, 208, 187, 208, 184, 209, 135, 208, 189, 208, 184,
     208, 186 :: nat]"

definition descr_perfect_score :: string where
  "descr_perfect_score =
     map char_of [208, 159, 208, 190, 208, 187, 209, 131, 209, 135, 208, 184, 209, 130,
     208, 181, 32, 49, 48, 48, 37, 32, 208, 178, 32, 209, 130, 208, 181, 209, 129, 209,
     130, 208, 181 :: nat]"

definition name_history_expert :: string where
  "name_history_expert =
     map char_of [208, 151, 208, 189, 208, 176, 209, 130, 208, 190, 208, 186, 32, 208,
     184, 209, 129, 209, 130, 208, 190, 209, 128, 208, 184, 208, 184 :: nat]"

definition descr_history_expert :: string where
  "descr_history_expert =
     map char_of [208, 159, 209, 128, 208, 190, 208, 185, 208, 180, 208, 184, 209, 130,
     208, 181, 32, 49, 48, 32, 209, 130, 208, 181, 209, 129, 209, 130, 208, 190, 208, 178
     :: nat]"

text \<open>One dictionary of the list \<open>achievements_to_check\<close>.\<close>

record achievement_data =
  ad_name :: string
  ad_description :: string
  ad_points :: int
  ad_condition :: bool
  ad_badge_url :: string

definition achievements_to_check :: "user_row \<Rightarrow> rat \<Rightarrow> achievement_data list" where
  "achievements_to_check user pct =
     [\<lparr>ad_name = name_first_test, ad_description = descr_first_test, ad_points = 10,
       ad_condition = True, ad_badge_url = ''badges/first_test.png''\<rparr>,
      \<lparr>ad_name = name_perfect_score, ad_description = descr_perfect_score, ad_points = 50,
       ad_condition = (pct = 100), ad_badge_url = ''badges/perfect_score.png''\<rparr>,
      \<lparr>ad_name = name_history_expert, ad_description = descr_history_expert,
       ad_points = 100, ad_condition = (10 \<le> len (results user)),
       ad_badge_url = ''badges/history_expert.png''\<rparr>]"

definition make_achievement :: "user_row \<Rightarrow> achievement_data \<Rightarrow> achievement" where
  "make_achievement user a =
     \<lparr>ach_user_id = user_pk user, ach_name = ad_name a, ach_description = ad_description a,
      ach_badge_url = ad_badge_url a, ach_points = ad_points a\<rparr>"

text \<open>
  \<open>QuizService.check_achievements\<close>. The set \<open>existing_achievements\<close> is read once, before
  the loop; the loop keeps the rules whose name is not in it and whose condition holds,
  and adds one \<open>Achievement\<close> row for each.
\<close>

definition check_achievements ::
  "world \<Rightarrow> int \<Rightarrow> int \<Rightarrow> int \<Rightarrow> rat \<Rightarrow> achievement_data list \<times> world" where
  "check_achievements w user_id cc n_total pct =
     (case users w user_id of
        None \<Rightarrow> ([], w)
      | Some user \<Rightarrow>
          let existing_achievements = set (map ach_name (achievements user));
              new_achievements =
                filter (\<lambda>a. ad_name a \<notin> existing_achievements \<and> ad_condition a)
                  (achievements_to_check user pct)
          in if new_achievements = [] then ([], w)
             else (new_achievements,
                   w\<lparr>users := (users w)(user_id \<mapsto>
                        user\<lparr>achievements :=
                          achievements user @ map (make_achievement user) new_achievements\<rparr>)\<rparr>))"

text \<open>\<open>update_user_stats\<close> (\<open>services/stats_service.py\<close>): it stamps \<open>last_active\<close>.\<close>

definition update_user_stats :: "world \<Rightarrow> int \<Rightarrow> world" where
  "update_user_stats w user_id =
     (case users w user_id of
        None \<Rightarrow> w
      | Some user \<Rightarrow> w\<lparr>users := (users w)(user_id \<mapsto> user\<lparr>last_active := clock w\<rparr>)\<rparr>)"

section \<open>The quiz service\<close>

text \<open>
  \<open>random.sample(xs, k)\<close>: \<open>k\<close> elements of \<open>xs\<close> at distinct positions, in random order.
  The random choice is the argument \<open>perm\<close>, a permutation of the positions of \<open>xs\<close>.
\<close>

definition random_sample :: "'a list \<Rightarrow> nat \<Rightarrow> nat list \<Rightarrow> 'a list" where
  "random_sample xs k perm = map (\<lambda>i. xs ! i) (take k (filter (\<lambda>i. i < length xs) perm))"

definition start_quiz ::
  "nat list \<Rightarrow> world \<Rightarrow> int \<Rightarrow> int \<Rightarrow> int \<Rightarrow> (py_error + start_res) \<times> world" where
  "start_quiz perm w user_id tid question_count =
     (let qs = sort_key (\<lambda>r. qid (row_question r))
                 (filter (\<lambda>r. row_topic_id r = tid) (question_table w))
      in if qs = [] then (Inr (StartFail NoQuestions), w)
         else if min question_count (len qs) < 0 then (Inl ValueError, w)
         else
           let selected_questions = random_sample qs (nat (min question_count (len qs))) perm;
               qd = \<lparr>topic_id = tid, questions = map row_question selected_questions,
                     current_question = 0, answers = Map.empty, start_time = clock w,
                     is_completed = False\<rparr>
           in (Inr (StartOk qd), w\<lparr>active_quizzes := (active_quizzes w)(user_id \<mapsto> qd)\<rparr>))"

definition get_current_question :: "world \<Rightarrow> int \<Rightarrow> py_error + question option" where
  "get_current_question w user_id =
     (case active_quizzes w user_id of
        None \<Rightarrow> Inr None
      | Some qd \<Rightarrow>
          if len (questions qd) \<le> current_question qd then Inr None
          else (case py_get (questions qd) (current_question qd) of
                  Inl e \<Rightarrow> Inl e
                | Inr q \<Rightarrow> Inr (Some q)))"

text \<open>
  \<open>is_option_selected\<close> and \<open>get_current_sequence\<close> read the recorded answer of a question,
  with the empty list for a missing session or a missing answer. \<open>x in v\<close> with an
  \<open>int\<close> on the left raises on a value that is not a list.
\<close>

definition get_current_sequence :: "world \<Rightarrow> int \<Rightarrow> int \<Rightarrow> pyval" where
  "get_current_sequence w user_id question_id =
     (case active_quizzes w user_id of
        None \<Rightarrow> VList []
      | Some qd \<Rightarrow>
          (case answers qd (py_str question_id) of None \<Rightarrow> VList [] | Some v \<Rightarrow> v))"

definition py_in :: "pyval \<Rightarrow> pyval \<Rightarrow> py_error + bool" where
  "py_in x v = (case v of VList xs \<Rightarrow> Inr (x \<in> set xs) | _ \<Rightarrow> Inl TypeError)"

definition is_option_selected :: "world \<Rightarrow> int \<Rightarrow> int \<Rightarrow> int \<Rightarrow> py_error + bool" where
  "is_option_selected w user_id question_id option_index =
     py_in (VInt option_index) (get_current_sequence w user_id question_id)"

text \<open>
  \<open>complete_quiz\<close>. It scores every question, then looks the user up: without the user row
  it returns a failure and leaves the session in place; with it, it stores the result,
  stamps the user, checks the achievements and deletes the session.
  \<open>(now - start_time).seconds\<close> is the seconds part of the difference, below one day.
\<close>

definition complete_quiz :: "world \<Rightarrow> int \<Rightarrow> (py_error + complete_res) \<times> world" where
  "complete_quiz w user_id =
     (case active_quizzes w user_id of
        None \<Rightarrow> (Inr (CFail NoActiveQuiz), w)
      | Some qd \<Rightarrow>
          (case score_questions (answers qd) (questions qd) 0 [] of
             Inl e \<Rightarrow> (Inl e, w)
           | Inr (cc, qrs) \<Rightarrow>
               let n_total = len (questions qd);
                   pct = (if 0 < n_total then py_round1 (of_int cc / of_int n_total * 100) else 0)
               in (case users w user_id of
                     None \<Rightarrow> (Inr (CFail UserNotFound), w)
                   | Some user \<Rightarrow>
                       let tr = \<lparr>tr_user_id = user_pk user, tr_topic_id = topic_id qd,
                                 score = cc, max_score = n_total, percentage = pct,
                                 time_spent = (clock w - start_time qd) mod 86400\<rparr>;
                           w1 = w\<lparr>users := (users w)(user_id \<mapsto>
                                   user\<lparr>results := results user @ [tr]\<rparr>)\<rparr>;
                           w2 = update_user_stats w1 user_id;
                           w3 = snd (check_achievements w2 user_id cc n_total pct)
                       in (Inr (CSuccess \<lparr>correct_count = cc, total_questions = n_total,
                                          out_percentage = pct, question_results = qrs\<rparr>),
                           w3\<lparr>active_quizzes := (active_quizzes w3)(user_id := None)\<rparr>))))"

text \<open>
  \<open>submit_answer\<close>. The argument \<open>question_id\<close> is not read: the answer is stored under
  the id of the question at \<open>current_question\<close>.
\<close>

definition submit_answer ::
  "world \<Rightarrow> int \<Rightarrow> int \<Rightarrow> pyval \<Rightarrow> (py_error + submit_res) \<times> world" where
  "submit_answer w user_id question_id answer =
     (case active_quizzes w user_id of
        None \<Rightarrow> (Inr (SFail NoActiveQuiz), w)
      | Some qd \<Rightarrow>
          if len (questions qd) \<le> current_question qd then (Inr (SFail QuestionsOver), w)
          else
            (case py_get (questions qd) (current_question qd) of
               Inl e \<Rightarrow> (Inl e, w)
             | Inr cq \<Rightarrow>
                 let qd1 = qd\<lparr>answers := (answers qd)(py_str (qid cq) \<mapsto> answer),
                              current_question := current_question qd + 1\<rparr>
                 in if len (questions qd1) \<le> current_question qd1 then
                      (case complete_quiz
                              (w\<lparr>active_quizzes :=
                                   (active_quizzes w)(user_id \<mapsto> qd1\<lparr>is_completed := True\<rparr>)\<rparr>)
                              user_id of
                         (Inl e, w') \<Rightarrow> (Inl e, w')
                       | (Inr r, w') \<Rightarrow> (Inr (SOk True (Some r)), w'))
                    else (Inr (SOk False None),
                          w\<lparr>active_quizzes := (active_quizzes w)(user_id \<mapsto> qd1)\<rparr>)))"

definition skip_question :: "world \<Rightarrow> int \<Rightarrow> (py_error + submit_res) \<times> world" where
  "skip_question w user_id =
     (case active_quizzes w user_id of
        None \<Rightarrow> (Inr (SFail NoActiveQuiz), w)
      | Some qd \<Rightarrow>
          if len (questions qd) \<le> current_question qd then (Inr (SFail QuestionsOver), w)
          else
            let qd1 = qd\<lparr>current_question := current_question qd + 1\<rparr>
            in if len (questions qd1) \<le> current_question qd1 then
                 (case complete_quiz
                         (w\<lparr>active_quizzes :=
                              (active_quizzes w)(user_id \<mapsto> qd1\<lparr>is_completed := True\<rparr>)\<rparr>)
                         user_id of
                    (Inl e, w') \<Rightarrow> (Inl e, w')
                  | (Inr r, w') \<Rightarrow> (Inr (SOk True (Some r)), w'))
               else (Inr (SOk False None),
                     w\<lparr>active_quizzes := (active_quizzes w)(user_id \<mapsto> qd1)\<rparr>))"


section \<open>The button handler\<close>

text \<open>
  \<open>handle_test_button\<close> (\<open>handlers/student.py\<close>) dispatches on the callback data of the
  pressed button. The model takes the data after parsing: \<open>quiz_start_<topic>\<close>,
  \<open>quiz_start_random\<close>, \<open>quiz_answer_<question>_<option>\<close>, \<open>quiz_seq_<question>_<option>\<close>,
  \<open>quiz_reset_<question>\<close>, \<open>quiz_confirm_<question>\<close>, \<open>quiz_skip\<close>, and any other data,
  which no branch handles.
\<close>

datatype callback =
    QuizStart int
  | QuizStartRandom
  | QuizAnswer int int
  | QuizSeq int int
  | QuizReset int
  | QuizConfirm int
  | QuizSkip
  | OtherData

text \<open>
  What the handler sends back: nothing, a message of the service, a question with the
  callback data of its buttons, the results, or the generic error message of the
  \<open>except\<close> clause.
\<close>

datatype reply =
    NoReply
  | Said message
  | ShowedQuestion "callback list"
  | ShowedResults quiz_outcome
  | SaidError py_error

text \<open>
  The keyboard of \<open>format_question_message\<close> as \<open>show_question\<close> calls it, that is
  without \<open>user_id\<close>: the callback data of the buttons, in order.
\<close>

definition format_question_keyboard :: "question \<Rightarrow> callback list" where
  "format_question_keyboard q =
     (let idxs = map int [0..<length (options q)]
      in (if question_type q = ''single'' \<or> question_type q = ''multiple'' then
            map (QuizAnswer (qid q)) idxs
            @ (if question_type q = ''multiple'' then [QuizConfirm (qid q)] else [])
          else if question_type q = ''sequence'' then map (QuizSeq (qid q)) idxs
          else [])
         @ [QuizSkip])"

text \<open>
  The list \<open>remaining_options\<close> that \<open>format_question_message\<close> computes when it is given
  a \<open>user_id\<close> and the current sequence is not empty: the options not yet in the sequence.
\<close>

definition remaining_options :: "question \<Rightarrow> pyval list \<Rightarrow> int list" where
  "remaining_options q current_sequence =
     filter (\<lambda>i. VStr (py_str i) \<notin> set current_sequence) (map int [0..<length (options q)])"

definition show_test_results :: "complete_res \<Rightarrow> reply" where
  "show_test_results r = (case r of CFail m \<Rightarrow> Said m | CSuccess out \<Rightarrow> ShowedResults out)"

definition show_question :: "world \<Rightarrow> int \<Rightarrow> (py_error + reply) \<times> world" where
  "show_question w user_id =
     (case get_current_question w user_id of
        Inl e \<Rightarrow> (Inl e, w)
      | Inr None \<Rightarrow>
          (case complete_quiz w user_id of
             (Inl e, w') \<Rightarrow> (Inl e, w')
           | (Inr r, w') \<Rightarrow> (Inr (show_test_results r), w'))
      | Inr (Some q) \<Rightarrow> (Inr (ShowedQuestion (format_question_keyboard q)), w))"

text \<open>
  What the handler does with the dictionary that \<open>submit_answer\<close> or \<open>skip_question\<close>
  returned.
\<close>

definition after_result ::
  "(py_error + submit_res) \<times> world \<Rightarrow> int \<Rightarrow> (py_error + reply) \<times> world" where
  "after_result rw user_id =
     (case rw of
        (Inl e, w') \<Rightarrow> (Inl e, w')
      | (Inr (SFail m), w') \<Rightarrow> (Inr (Said m), w')
      | (Inr (SOk completed ro), w') \<Rightarrow>
          if completed then
            (case ro of
               None \<Rightarrow> (Inl KeyError, w')
             | Some r \<Rightarrow> (Inr (show_test_results r), w'))
          else show_question w' user_id)"

text \<open>
  Toggling an option of a multiple-choice question: \<open>remove\<close> deletes the first
  occurrence, \<open>append\<close> adds at the end; \<open>in\<close> raises on a value that is not a list.
\<close>

definition toggle_option :: "pyval \<Rightarrow> int \<Rightarrow> py_error + pyval" where
  "toggle_option selected_options option_index =
     (case selected_options of
        VList xs \<Rightarrow>
          Inr (VList (if VInt option_index \<in> set xs then remove1 (VInt option_index) xs
                      else xs @ [VInt option_index]))
      | _ \<Rightarrow> Inl TypeError)"

text \<open>Appending a choice to the sequence: only a list has \<open>append\<close>.\<close>

definition append_choice :: "pyval \<Rightarrow> int \<Rightarrow> py_error + pyval" where
  "append_choice sequence option_index =
     (case sequence of
        VList xs \<Rightarrow> Inr (VList (xs @ [VStr (py_str option_index)]))
      | _ \<Rightarrow> Inl AttributeError)"

text \<open>
  \<open>active_quizzes[user_id]["answers"][str(question_id)] = v\<close>. The handler writes only
  after \<open>get_current_question\<close> returned a question, so the session exists.
\<close>

definition set_answer :: "world \<Rightarrow> int \<Rightarrow> int \<Rightarrow> pyval \<Rightarrow> world" where
  "set_answer w user_id question_id v =
     (case active_quizzes w user_id of
        None \<Rightarrow> w
      | Some qd \<Rightarrow>
          w\<lparr>active_quizzes :=
              (active_quizzes w)(user_id \<mapsto>
                 qd\<lparr>answers := (answers qd)(py_str question_id \<mapsto> v)\<rparr>)\<rparr>)"

definition start_and_show ::
  "nat list \<Rightarrow> world \<Rightarrow> int \<Rightarrow> int \<Rightarrow> (py_error + reply) \<times> world" where
  "start_and_show perm w user_id tid =
     (case start_quiz perm w user_id tid 10 of
        (Inl e, w') \<Rightarrow> (Inl e, w')
      | (Inr (StartFail m), w') \<Rightarrow> (Inr (Said m), w')
      | (Inr (StartOk _), w') \<Rightarrow> show_question w' user_id)"

text \<open>
  The body of the \<open>try\<close> block. \<open>choice\<close> and \<open>perm\<close> are the random choices of
  \<open>random.choice\<close> and \<open>random.sample\<close>.
\<close>

definition handle_body ::
  "nat \<Rightarrow> nat list \<Rightarrow> world \<Rightarrow> int \<Rightarrow> callback \<Rightarrow> (py_error + reply) \<times> world" where
  "handle_body choice perm w user_id cb =
     (case cb of
        QuizStart tid \<Rightarrow> start_and_show perm w user_id tid
      | QuizStartRandom \<Rightarrow>
          if topic_ids w = [] then (Inr (Said NoTopics), w)
          else start_and_show perm w user_id
                 (topic_ids w ! (choice mod length (topic_ids w)))
      | QuizAnswer question_id option_index \<Rightarrow>
          (case get_current_question w user_id of
             Inl e \<Rightarrow> (Inl e, w)
           | Inr None \<Rightarrow> (Inr NoReply, w)
           | Inr (Some cq) \<Rightarrow>
               if qid cq = question_id then
                 if question_type cq = ''single'' then
                   after_result (submit_answer w user_id question_id (VInt option_index))
                     user_id
                 else if question_type cq = ''multiple'' then
                   (case toggle_option (get_current_sequence w user_id question_id)
                           option_index of
                      Inl e \<Rightarrow> (Inl e, w)
                    | Inr v \<Rightarrow> show_question (set_answer w user_id question_id v) user_id)
                 else (Inr NoReply, w)
               else (Inr NoReply, w))
      | QuizSeq question_id option_index \<Rightarrow>
          (case get_current_question w user_id of
             Inl e \<Rightarrow> (Inl e, w)
           | Inr None \<Rightarrow> (Inr NoReply, w)
           | Inr (Some cq) \<Rightarrow>
               if qid cq = question_id then
                 (case append_choice (get_current_sequence w user_id question_id)
                         option_index of
                    Inl e \<Rightarrow> (Inl e, w)
                  | Inr v \<Rightarrow> show_question (set_answer w user_id question_id v) user_id)
               else (Inr NoReply, w))
      | QuizReset question_id \<Rightarrow>
          (case get_current_question w user_id of
             Inl e \<Rightarrow> (Inl e, w)
           | Inr None \<Rightarrow> (Inr NoReply, w)
           | Inr (Some cq) \<Rightarrow>
               if qid cq = question_id then
                 show_question (set_answer w user_id question_id (VList [])) user_id
               else (Inr NoReply, w))
      | QuizConfirm question_id \<Rightarrow>
          (case get_current_question w user_id of
             Inl e \<Rightarrow> (Inl e, w)
           | Inr None \<Rightarrow> (Inr NoReply, w)
           | Inr (Some cq) \<Rightarrow>
               if qid cq = question_id then
                 after_result
                   (submit_answer w user_id question_id
                      (get_current_sequence w user_id question_id))
                   user_id
               else (Inr NoReply, w))
      | QuizSkip \<Rightarrow> after_result (skip_question w user_id) user_id
      | OtherData \<Rightarrow> (Inr NoReply, w))"

text \<open>
  The handler: an exception of the body is caught, the generic error message is sent,
  and the state stays as the body left it.
\<close>

definition handle_test_button ::
  "nat \<Rightarrow> nat list \<Rightarrow> world \<Rightarrow> int \<Rightarrow> callback \<Rightarrow> reply \<times> world" where
  "handle_test_button choice perm w user_id cb =
     (case handle_body choice perm w user_id cb of
        (Inl e, w') \<Rightarrow> (SaidError e, w')
      | (Inr r, w') \<Rightarrow> (r, w'))"

text \<open>
  The correct answer of a sequence question as the administrator's dialogue stores it
  (\<open>handlers/admin.py\<close>, state \<open>entering_correct_answer_sequence\<close>): the indices as strings.
\<close>

definition admin_sequence_answer :: "int list \<Rightarrow> pyval" where
  "admin_sequence_answer sequence = VList (map (\<lambda>idx. VStr (py_str idx)) sequence)"


section \<open>Runs and example states\<close>

text \<open>Pressing a list of buttons one after the other, as one user.\<close>

definition press_buttons :: "world \<Rightarrow> int \<Rightarrow> callback list \<Rightarrow> world" where
  "press_buttons w user_id cbs =
     fold (\<lambda>cb w'. snd (handle_test_button 0 [] w' user_id cb)) cbs w"

text \<open>Three questions, one of each type, each with three options.\<close>

definition q_seq :: question where
  "q_seq = \<lparr>qid = 7, qtext = ''Order the events'', options = [''a'', ''b'', ''c''],
            correct_answer = admin_sequence_answer [2, 0, 1], question_type = ''sequence'',
            explanation = None, media_url = None\<rparr>"

definition q_multi :: question where
  "q_multi = \<lparr>qid = 8, qtext = ''Pick all'', options = [''a'', ''b'', ''c''],
              correct_answer = VList [VInt 0, VInt 2], question_type = ''multiple'',
              explanation = None, media_url = None\<rparr>"

definition q_single :: question where
  "q_single = \<lparr>qid = 9, qtext = ''Pick one'', options = [''a'', ''b'', ''c''],
               correct_answer = VList [VInt 2], question_type = ''single'',
               explanation = None, media_url = None\<rparr>"

definition user1 :: user_row where
  "user1 = \<lparr>user_pk = 1, last_active = 0, results = [], achievements = []\<rparr>"

text \<open>A world where user 5 has just started a session on the given questions.\<close>

definition w_with :: "question list \<Rightarrow> world" where
  "w_with qs =
     \<lparr>active_quizzes = [5 \<mapsto> \<lparr>topic_id = 1, questions = qs, current_question = 0,
                              answers = Map.empty, start_time = 0, is_completed = False\<rparr>],
      users = [5 \<mapsto> user1], question_table = [], topic_ids = [1], clock = 60\<rparr>"

definition w_three :: world where
  "w_three = w_with [q_seq, q_multi, q_single]"

text \<open>
  A world without sessions whose question table holds two questions of topic 1 and one of
  topic 2, not in the order of their ids.
\<close>

definition w_bank :: world where
  "w_bank =
     \<lparr>active_quizzes = Map.empty, users = [5 \<mapsto> user1],
      question_table =
        [\<lparr>row_topic_id = 1, row_question = q_single\<rparr>,
         \<lparr>row_topic_id = 2, row_question = q_multi\<rparr>,
         \<lparr>row_topic_id = 1, row_question = q_seq\<rparr>],
      topic_ids = [1, 2], clock = 60\<rparr>"

text \<open>
  User 5 in a session on a multiple-choice and a single-choice question, after pressing
  options 0 and 2 of the first one.
\<close>

definition w_picked :: world where
  "w_picked = press_buttons (w_with [q_multi, q_single]) 5 [QuizAnswer 8 0, QuizAnswer 8 2]"

section \<open>Invariants\<close>

text \<open>The index of a session lies between 0 and the number of its questions.\<close>

definition index_in_range :: "quiz_data \<Rightarrow> bool" where
  "index_in_range qd \<longleftrightarrow>
     0 \<le> current_question qd \<and> current_question qd \<le> len (questions qd)"

definition session_in_range :: "world \<Rightarrow> int \<Rightarrow> bool" where
  "session_in_range w user_id =
     (case active_quizzes w user_id of None \<Rightarrow> True | Some qd \<Rightarrow> index_in_range qd)"

text \<open>
  A recorded selection holds every option index at most once: the \<open>int\<close> elements of a
  recorded list are distinct.
\<close>

fun is_VInt :: "pyval \<Rightarrow> bool" where
  "is_VInt (VInt _) = True"
| "is_VInt _ = False"

definition selection_ok :: "pyval \<Rightarrow> bool" where
  "selection_ok v = (case v of VList xs \<Rightarrow> distinct (filter is_VInt xs) | _ \<Rightarrow> True)"

definition selections_ok :: "world \<Rightarrow> int \<Rightarrow> bool" where
  "selections_ok w user_id =
     (case active_quizzes w user_id of
        None \<Rightarrow> True
      | Some qd \<Rightarrow> \<forall>k v. answers qd k = Some v \<longrightarrow> selection_ok v)"

text \<open>The names of the achievements a user holds.\<close>

definition achievement_names :: "world \<Rightarrow> int \<Rightarrow> string list" where
  "achievement_names w user_id =
     (case users w user_id of None \<Rightarrow> [] | Some user \<Rightarrow> map ach_name (achievements user))"

text \<open>Pressing the skip button \<open>n\<close> times.\<close>

fun skip_times :: "nat \<Rightarrow> world \<Rightarrow> int \<Rightarrow> world" where
  "skip_times 0 w user_id = w"
| "skip_times (Suc n) w user_id = skip_times n (snd (skip_question w user_id)) user_id"

text \<open>No answer is recorded for any question of the session.\<close>

definition no_answer_recorded :: "quiz_data \<Rightarrow> bool" where
  "no_answer_recorded qd = list_all (\<lambda>q. answers qd (py_str (qid q)) = None) (questions qd)"

section \<open>Properties of the Python values\<close>

lemma py_str_digits [simp]:
  "py_str 0 = ''0''" "py_str 1 = ''1''" "py_str 2 = ''2''" "py_str 7 = ''7''"
  "py_str 8 = ''8''" "py_str 9 = ''9''"
  by (simp_all add: py_str_def str_nat.simps digit_char_def)

lemma list_ex_map_VInt: "\<not> list_ex is_VList (map VInt xs)"
  by (induction xs) auto

lemma py_set_ints: "py_set (VList (map VInt xs)) = Inr (VInt ` set xs)"
  by (simp add: py_set_def list_ex_map_VInt)

section \<open>Scoring of a multiple-choice question\<close>

text \<open>
  Claim C6. A multiple-choice question is scored correct exactly when the set of the
  submitted option indices equals the set of the correct indices: a missing index and an
  extra index both make the answer incorrect, the order and repetitions do not matter.
\<close>

theorem multiple_scoring_exact:
  assumes "question_type q = ''multiple''"
    and "correct_answer q = VList (map VInt cs)"
  shows "is_correct q (Some (VList (map VInt xs))) = Inr (set xs = set cs)"
  using assms by (simp add: is_correct_def py_set_ints inj_image_eq_iff inj_def)

theorem multiple_scoring_exact_witness:
  "question_type q_multi = ''multiple''
   \<and> correct_answer q_multi = VList (map VInt [0, 2])
   \<and> is_correct q_multi (Some (VList [VInt 0, VInt 2])) = Inr True
   \<and> is_correct q_multi (Some (VList [VInt 0])) = Inr False
   \<and> is_correct q_multi (Some (VList [VInt 0, VInt 1, VInt 2])) = Inr False"
proof -
  have t: "question_type q_multi = ''multiple''"
    and c: "correct_answer q_multi = VList (map VInt [0, 2])"
    by (simp_all add: q_multi_def)
  have missing: "set [0 :: int] \<noteq> set [0, 2]"
  proof
    assume h: "set [0 :: int] = set [0, 2]"
    have "(2 :: int) \<in> set [0]" unfolding h by simp
    then show False by simp
  qed
  have extra: "set [0 :: int, 1, 2] \<noteq> set [0, 2]"
  proof
    assume h: "set [0 :: int, 1, 2] = set [0, 2]"
    have "(1 :: int) \<in> set [0, 2]" unfolding h [symmetric] by simp
    then show False by simp
  qed
  show ?thesis
    using t c missing extra
      multiple_scoring_exact [OF t c, of "[0, 2]"]
      multiple_scoring_exact [OF t c, of "[0]"]
      multiple_scoring_exact [OF t c, of "[0, 1, 2]"]
    by simp
qed

section \<open>How the operations change the session store\<close>

lemmas run_defs = press_buttons_def handle_test_button_def handle_body_def
  get_current_question_def py_get_def len_def get_current_sequence_def append_choice_def
  set_answer_def show_question_def submit_answer_def after_result_def show_test_results_def
  toggle_option_def skip_question_def w_three_def w_with_def q_seq_def q_multi_def q_single_def

lemmas completion_defs = complete_quiz_def is_correct_def py_index0_def py_set_def
  admin_sequence_answer_def check_achievements_def update_user_stats_def
  achievements_to_check_def user1_def py_round1_def

lemma py_get_in_range:
  "0 \<le> i \<Longrightarrow> i < len xs \<Longrightarrow> py_get xs i = Inr (xs ! nat i)"
  by (simp add: py_get_def)

lemma check_achievements_sessions:
  "active_quizzes (snd (check_achievements w u cc n p)) = active_quizzes w"
  by (simp add: check_achievements_def Let_def split: option.splits)

lemma update_user_stats_sessions:
  "active_quizzes (update_user_stats w u) = active_quizzes w"
  by (simp add: update_user_stats_def split: option.splits)

lemma complete_quiz_sessions:
  "active_quizzes (snd (complete_quiz w u)) =
     (case fst (complete_quiz w u) of
        Inr (CSuccess _) \<Rightarrow> (active_quizzes w)(u := None)
      | _ \<Rightarrow> active_quizzes w)"
  by (simp add: complete_quiz_def Let_def check_achievements_sessions update_user_stats_sessions
      split: option.splits sum.splits prod.splits)

lemma complete_quiz_no_session:
  "active_quizzes w u = None \<Longrightarrow> complete_quiz w u = (Inr (CFail NoActiveQuiz), w)"
  by (simp add: complete_quiz_def)

lemma get_current_question_no_session:
  "active_quizzes w u = None \<Longrightarrow> get_current_question w u = Inr None"
  by (simp add: get_current_question_def)

lemma submit_answer_no_session:
  "active_quizzes w u = None \<Longrightarrow> submit_answer w u q a = (Inr (SFail NoActiveQuiz), w)"
  by (simp add: submit_answer_def)

lemma skip_question_no_session:
  "active_quizzes w u = None \<Longrightarrow> skip_question w u = (Inr (SFail NoActiveQuiz), w)"
  by (simp add: skip_question_def)

lemma complete_quiz_other:
  "active_quizzes (snd (complete_quiz w u)) v = None
   \<or> active_quizzes (snd (complete_quiz w u)) v = active_quizzes w v"
  by (simp add: complete_quiz_sessions split: sum.splits complete_res.splits)

lemma complete_quiz_in_range:
  "session_in_range w v \<Longrightarrow> session_in_range (snd (complete_quiz w u)) v"
  using complete_quiz_other [of w u v] by (auto simp add: session_in_range_def)

lemma complete_quiz_same_or_removed:
  "active_quizzes (snd (complete_quiz w u)) v = Some qd' \<Longrightarrow> active_quizzes w v = Some qd'"
  using complete_quiz_other [of w u v] by auto

lemma submit_answer_cases [case_names no_session over raise advance complete]:
  assumes "active_quizzes w u = None \<Longrightarrow> submit_answer w u q a = (Inr (SFail NoActiveQuiz), w) \<Longrightarrow> R"
    and "\<And>qd. active_quizzes w u = Some qd \<Longrightarrow> len (questions qd) \<le> current_question qd \<Longrightarrow>
           submit_answer w u q a = (Inr (SFail QuestionsOver), w) \<Longrightarrow> R"
    and "\<And>qd e. active_quizzes w u = Some qd \<Longrightarrow> current_question qd < len (questions qd) \<Longrightarrow>
           py_get (questions qd) (current_question qd) = Inl e \<Longrightarrow>
           submit_answer w u q a = (Inl e, w) \<Longrightarrow> R"
    and "\<And>qd cq. active_quizzes w u = Some qd \<Longrightarrow> current_question qd + 1 < len (questions qd) \<Longrightarrow>
           py_get (questions qd) (current_question qd) = Inr cq \<Longrightarrow>
           submit_answer w u q a =
             (Inr (SOk False None),
              w\<lparr>active_quizzes := (active_quizzes w)(u \<mapsto>
                   qd\<lparr>answers := (answers qd)(py_str (qid cq) \<mapsto> a),
                      current_question := current_question qd + 1\<rparr>)\<rparr>) \<Longrightarrow> R"
    and "\<And>qd cq. active_quizzes w u = Some qd \<Longrightarrow> current_question qd < len (questions qd) \<Longrightarrow>
           len (questions qd) \<le> current_question qd + 1 \<Longrightarrow>
           py_get (questions qd) (current_question qd) = Inr cq \<Longrightarrow>
           submit_answer w u q a =
             (case complete_quiz
                     (w\<lparr>active_quizzes := (active_quizzes w)(u \<mapsto>
                          qd\<lparr>answers := (answers qd)(py_str (qid cq) \<mapsto> a),
                             current_question := current_question qd + 1,
                             is_completed := True\<rparr>)\<rparr>) u of
                (Inl e, w') \<Rightarrow> (Inl e, w')
              | (Inr r, w') \<Rightarrow> (Inr (SOk True (Some r)), w')) \<Longrightarrow> R"
  shows R
proof (cases "active_quizzes w u")
  case None
  then show R using assms(1) by (simp add: submit_answer_def)
next
  case (Some qd)
  show R
  proof (cases "len (questions qd) \<le> current_question qd")
    case True
    with Some show R using assms(2) by (simp add: submit_answer_def)
  next
    case False
    show R
    proof (cases "py_get (questions qd) (current_question qd)")
      case (Inl e)
      with Some False show R using assms(3) [of qd e] by (simp add: submit_answer_def)
    next
      case (Inr cq)
      show R
      proof (cases "len (questions qd) \<le> current_question qd + 1")
        case True
        with Some False Inr show R
          using assms(5) [of qd cq] by (simp add: submit_answer_def Let_def)
      next
        case F2: False
        with Some False Inr show R
          using assms(4) [of qd cq] by (simp add: submit_answer_def Let_def)
      qed
    qed
  qed
qed

lemma skip_question_cases [case_names no_session over advance complete]:
  assumes "active_quizzes w u = None \<Longrightarrow> skip_question w u = (Inr (SFail NoActiveQuiz), w) \<Longrightarrow> R"
    and "\<And>qd. active_quizzes w u = Some qd \<Longrightarrow> len (questions qd) \<le> current_question qd \<Longrightarrow>
           skip_question w u = (Inr (SFail QuestionsOver), w) \<Longrightarrow> R"
    and "\<And>qd. active_quizzes w u = Some qd \<Longrightarrow> current_question qd + 1 < len (questions qd) \<Longrightarrow>
           skip_question w u =
             (Inr (SOk False None),
              w\<lparr>active_quizzes := (active_quizzes w)(u \<mapsto>
                   qd\<lparr>current_question := current_question qd + 1\<rparr>)\<rparr>) \<Longrightarrow> R"
    and "\<And>qd. active_quizzes w u = Some qd \<Longrightarrow> current_question qd < len (questions qd) \<Longrightarrow>
           len (questions qd) \<le> current_question qd + 1 \<Longrightarrow>
           skip_question w u =
             (case complete_quiz
                     (w\<lparr>active_quizzes := (active_quizzes w)(u \<mapsto>
                          qd\<lparr>current_question := current_question qd + 1,
                             is_completed := True\<rparr>)\<rparr>) u of
                (Inl e, w') \<Rightarrow> (Inl e, w')
              | (Inr r, w') \<Rightarrow> (Inr (SOk True (Some r)), w')) \<Longrightarrow> R"
  shows R
proof (cases "active_quizzes w u")
  case None
  then show R using assms(1) by (simp add: skip_question_def)
next
  case (Some qd)
  show R
  proof (cases "len (questions qd) \<le> current_question qd")
    case True
    with Some show R using assms(2) by (simp add: skip_question_def)
  next
    case False
    show R
    proof (cases "len (questions qd) \<le> current_question qd + 1")
      case True
      with Some False show R
        using assms(4) [of qd] by (simp add: skip_question_def Let_def)
    next
      case F2: False
      with Some False show R
        using assms(3) [of qd] by (simp add: skip_question_def Let_def)
    qed
  qed
qed

lemma snd_completion [simp]:
  "snd (case x of (Inl e, w') \<Rightarrow> (Inl e, w') | (Inr r, w') \<Rightarrow> (Inr (f r), w')) = snd x"
  by (simp split: prod.splits sum.splits)

lemma submit_answer_in_range:
  assumes "session_in_range w v"
  shows "session_in_range (snd (submit_answer w u q a)) v"
proof (cases rule: submit_answer_cases [of w u q a])
  case (advance qd cq)
  with assms show ?thesis by (auto simp add: session_in_range_def index_in_range_def)
next
  case (complete qd cq)
  with assms show ?thesis
    by (auto simp add: session_in_range_def index_in_range_def intro!: complete_quiz_in_range [unfolded session_in_range_def])
qed (use assms in simp_all)

lemma snd_show_question:
  "snd (show_question w u) =
     (case get_current_question w u of Inr None \<Rightarrow> snd (complete_quiz w u) | _ \<Rightarrow> w)"
  by (simp add: show_question_def split: sum.splits option.splits prod.splits)

lemma snd_after_result:
  "snd (after_result rw u) = snd rw \<or> snd (after_result rw u) = snd (show_question (snd rw) u)"
  by (simp add: after_result_def split: prod.splits sum.splits submit_res.splits option.splits)

lemma snd_start_and_show:
  "snd (start_and_show perm w u tid) = snd (start_quiz perm w u tid 10)
   \<or> snd (start_and_show perm w u tid) = snd (show_question (snd (start_quiz perm w u tid 10)) u)"
  by (simp add: start_and_show_def split: prod.splits sum.splits start_res.splits)

lemma snd_handle_test_button:
  "snd (handle_test_button choice perm w u cb) = snd (handle_body choice perm w u cb)"
  by (simp add: handle_test_button_def split: prod.splits sum.splits)

lemma handle_test_button_preserves:
  assumes P: "P w"
    and start: "\<And>w tid. P w \<Longrightarrow> P (snd (start_quiz perm w u tid 10))"
    and submit_single: "\<And>w q i. P w \<Longrightarrow> P (snd (submit_answer w u q (VInt i)))"
    and submit_confirm:
      "\<And>w q. P w \<Longrightarrow> P (snd (submit_answer w u q (get_current_sequence w u q)))"
    and skip: "\<And>w. P w \<Longrightarrow> P (snd (skip_question w u))"
    and complete: "\<And>w. P w \<Longrightarrow> P (snd (complete_quiz w u))"
    and toggle: "\<And>w q i v. P w \<Longrightarrow> toggle_option (get_current_sequence w u q) i = Inr v
                   \<Longrightarrow> P (set_answer w u q v)"
    and append: "\<And>w q i v. P w \<Longrightarrow> append_choice (get_current_sequence w u q) i = Inr v
                   \<Longrightarrow> P (set_answer w u q v)"
    and reset: "\<And>w q. P w \<Longrightarrow> P (set_answer w u q (VList []))"
  shows "P (snd (handle_test_button choice perm w u cb))"
proof -
  have show_q: "P (snd (show_question w' u))" if "P w'" for w'
    using that complete [of w'] by (simp add: snd_show_question split: sum.splits option.splits)
  have after: "P (snd (after_result rw u))" if "P (snd rw)" for rw
    using that show_q [of "snd rw"] snd_after_result [of rw u] by auto
  have start_show: "P (snd (start_and_show perm w u tid))" for tid
    using start [OF P, of tid] show_q [of "snd (start_quiz perm w u tid 10)"]
      snd_start_and_show [of perm w u tid] by auto
  have "P (snd (handle_body choice perm w u cb))"
  proof (cases cb)
    case (QuizStart tid)
    then show ?thesis using start_show by (simp add: handle_body_def)
  next
    case QuizStartRandom
    then show ?thesis using start_show P by (simp add: handle_body_def)
  next
    case (QuizAnswer q i)
    then show ?thesis
      using P after [of "submit_answer w u q (VInt i)"] submit_single [OF P, of q i]
        toggle [OF P, of q i] show_q
      by (auto simp add: handle_body_def split: sum.splits option.splits)
  next
    case (QuizSeq q i)
    then show ?thesis
      using P append [OF P, of q i] show_q
      by (auto simp add: handle_body_def split: sum.splits option.splits)
  next
    case (QuizReset q)
    then show ?thesis
      using P reset [OF P, of q] show_q
      by (auto simp add: handle_body_def split: sum.splits option.splits)
  next
    case (QuizConfirm q)
    then show ?thesis
      using P after [of "submit_answer w u q (get_current_sequence w u q)"]
        submit_confirm [OF P, of q]
      by (auto simp add: handle_body_def split: sum.splits option.splits)
  next
    case QuizSkip
    then show ?thesis
      using after [of "skip_question w u"] skip [OF P] by (simp add: handle_body_def)
  next
    case OtherData
    then show ?thesis using P by (simp add: handle_body_def)
  qed
  then show ?thesis by (simp add: snd_handle_test_button)
qed

lemma skip_question_in_range:
  assumes "session_in_range w v"
  shows "session_in_range (snd (skip_question w u)) v"
proof (cases rule: skip_question_cases [of w u])
  case (advance qd)
  with assms show ?thesis by (auto simp add: session_in_range_def index_in_range_def)
next
  case (complete qd)
  with assms show ?thesis
    by (auto simp add: session_in_range_def index_in_range_def
        intro!: complete_quiz_in_range [unfolded session_in_range_def])
qed (use assms in simp_all)

lemma start_quiz_in_range:
  assumes "session_in_range w v"
  shows "session_in_range (snd (start_quiz perm w u tid k)) v"
  using assms
  by (auto simp add: start_quiz_def Let_def session_in_range_def index_in_range_def len_def)

lemma set_answer_in_range:
  "session_in_range w v \<Longrightarrow> session_in_range (set_answer w u q x) v"
  by (auto simp add: set_answer_def session_in_range_def index_in_range_def split: option.splits)

lemma handle_test_button_in_range:
  assumes "session_in_range w v"
  shows "session_in_range (snd (handle_test_button choice perm w u cb)) v"
  by (rule handle_test_button_preserves [where P = "\<lambda>w. session_in_range w v", OF assms])
    (simp_all add: start_quiz_in_range submit_answer_in_range skip_question_in_range
      complete_quiz_in_range set_answer_in_range)

lemma submit_answer_step:
  assumes "active_quizzes w u = Some qd" and "index_in_range qd"
    and "active_quizzes (snd (submit_answer w u q a)) u = Some qd'"
  shows "current_question qd' =
           (if current_question qd < len (questions qd) then current_question qd + 1
            else current_question qd)
         \<and> questions qd' = questions qd"
proof (cases rule: submit_answer_cases [of w u q a])
  case (raise qd0 e)
  with assms show ?thesis by (simp add: py_get_in_range index_in_range_def)
next
  case (complete qd0 cq)
  let ?w2 = "w\<lparr>active_quizzes := (active_quizzes w)(u \<mapsto>
                          qd0\<lparr>answers := (answers qd0)(py_str (qid cq) \<mapsto> a),
                             current_question := current_question qd0 + 1,
                             is_completed := True\<rparr>)\<rparr>"
  from assms(3) complete have "active_quizzes (snd (complete_quiz ?w2 u)) u = Some qd'"
    by simp
  then have "active_quizzes ?w2 u = Some qd'" by (rule complete_quiz_same_or_removed)
  with complete assms show ?thesis by auto
qed (use assms in auto)

lemma skip_question_step:
  assumes "active_quizzes w u = Some qd"
    and "active_quizzes (snd (skip_question w u)) u = Some qd'"
  shows "current_question qd' =
           (if current_question qd < len (questions qd) then current_question qd + 1
            else current_question qd)
         \<and> questions qd' = questions qd \<and> answers qd' = answers qd"
proof (cases rule: skip_question_cases [of w u])
  case (complete qd0)
  let ?w2 = "w\<lparr>active_quizzes := (active_quizzes w)(u \<mapsto>
                          qd0\<lparr>current_question := current_question qd0 + 1,
                             is_completed := True\<rparr>)\<rparr>"
  from assms(2) complete have "active_quizzes (snd (complete_quiz ?w2 u)) u = Some qd'"
    by simp
  then have "active_quizzes ?w2 u = Some qd'" by (rule complete_quiz_same_or_removed)
  with complete assms show ?thesis by auto
qed (use assms in auto)

lemma start_quiz_started:
  assumes "fst (start_quiz perm w u tid k) = Inr (StartOk qd)"
  shows "current_question qd = 0 \<and> answers qd = Map.empty
         \<and> active_quizzes (snd (start_quiz perm w u tid k)) u = Some qd"
  using assms by (auto simp add: start_quiz_def Let_def split: if_splits)


section \<open>A completed session leaves the store\<close>

lemma submit_answer_completed:
  assumes "submit_answer w u q a = (Inr (SOk True (Some (CSuccess out))), w')"
  shows "active_quizzes w' u = None"
proof (cases rule: submit_answer_cases [of w u q a])
  case (complete qd cq)
  let ?w2 = "w\<lparr>active_quizzes := (active_quizzes w)(u \<mapsto>
                qd\<lparr>answers := (answers qd)(py_str (qid cq) \<mapsto> a),
                   current_question := current_question qd + 1,
                   is_completed := True\<rparr>)\<rparr>"
  from complete assms have "complete_quiz ?w2 u = (Inr (CSuccess out), w')"
    by (auto split: prod.splits sum.splits)
  then show ?thesis using complete_quiz_sessions [of ?w2 u] by simp
qed (use assms in simp_all)

lemma skip_question_completed:
  assumes "skip_question w u = (Inr (SOk True (Some (CSuccess out))), w')"
  shows "active_quizzes w' u = None"
proof (cases rule: skip_question_cases [of w u])
  case (complete qd)
  let ?w2 = "w\<lparr>active_quizzes := (active_quizzes w)(u \<mapsto>
                qd\<lparr>current_question := current_question qd + 1,
                   is_completed := True\<rparr>)\<rparr>"
  from complete assms have "complete_quiz ?w2 u = (Inr (CSuccess out), w')"
    by (auto split: prod.splits sum.splits)
  then show ?thesis using complete_quiz_sessions [of ?w2 u] by simp
qed (use assms in simp_all)

text \<open>
  Claim C7. When the session of a user completes successfully, whether \<open>complete_quiz\<close>
  was called directly or by the last \<open>submit_answer\<close> or \<open>skip_question\<close>, the session is
  no longer in the store; afterwards \<open>get_current_question\<close> returns \<open>None\<close>, and
  \<open>submit_answer\<close>, \<open>skip_question\<close> and \<open>complete_quiz\<close> fail with the message "no active
  test" and change nothing.
\<close>

theorem completed_session_is_removed:
  assumes "complete_quiz w user_id = (Inr (CSuccess out), w')
           \<or> submit_answer w user_id q0 a0 = (Inr (SOk True (Some (CSuccess out))), w')
           \<or> skip_question w user_id = (Inr (SOk True (Some (CSuccess out))), w')"
  shows "active_quizzes w' user_id = None
    \<and> get_current_question w' user_id = Inr None
    \<and> submit_answer w' user_id question_id answer = (Inr (SFail NoActiveQuiz), w')
    \<and> skip_question w' user_id = (Inr (SFail NoActiveQuiz), w')
    \<and> complete_quiz w' user_id = (Inr (CFail NoActiveQuiz), w')"
proof -
  have "active_quizzes w' user_id = None"
    using assms complete_quiz_sessions [of w user_id]
      submit_answer_completed [of w user_id q0 a0 out w']
      skip_question_completed [of w user_id out w']
    by auto
  then show ?thesis
    by (simp add: complete_quiz_no_session get_current_question_no_session
        submit_answer_no_session skip_question_no_session)
qed

theorem completed_session_is_removed_witness:
  "fst (complete_quiz (w_with [q_single]) 5)
     = Inr (CSuccess \<lparr>correct_count = 0, total_questions = 1, out_percentage = 0,
              question_results =
                [\<lparr>qr_question = ''Pick one'', qr_user_answer = None,
                  qr_correct_answer = VList [VInt 2], qr_is_correct = False,
                  qr_explanation = None\<rparr>]\<rparr>)
   \<and> active_quizzes (snd (complete_quiz (w_with [q_single]) 5)) 5 = None
   \<and> get_current_question (snd (complete_quiz (w_with [q_single]) 5)) 5 = Inr None
   \<and> fst (submit_answer (snd (complete_quiz (w_with [q_single]) 5)) 5 9 (VInt 2))
       = Inr (SFail NoActiveQuiz)"
proof -
  let ?out = "\<lparr>correct_count = 0, total_questions = 1, out_percentage = 0,
              question_results =
                [\<lparr>qr_question = ''Pick one'', qr_user_answer = None,
                  qr_correct_answer = VList [VInt 2], qr_is_correct = False,
                  qr_explanation = None\<rparr>]\<rparr>"
  have f: "fst (complete_quiz (w_with [q_single]) 5) = Inr (CSuccess ?out)"
    by (simp add: complete_quiz_def w_with_def q_single_def is_correct_def Let_def len_def
        py_round1_def)
  then have h: "complete_quiz (w_with [q_single]) 5
      = (Inr (CSuccess ?out), snd (complete_quiz (w_with [q_single]) 5))"
    by (simp add: prod_eq_iff)
  then have "complete_quiz (w_with [q_single]) 5
        = (Inr (CSuccess ?out), snd (complete_quiz (w_with [q_single]) 5))
      \<or> submit_answer (w_with [q_single]) 5 9 (VInt 2)
        = (Inr (SOk True (Some (CSuccess ?out))), snd (complete_quiz (w_with [q_single]) 5))
      \<or> skip_question (w_with [q_single]) 5
        = (Inr (SOk True (Some (CSuccess ?out))), snd (complete_quiz (w_with [q_single]) 5))"
    by (rule disjI1)
  from completed_session_is_removed [OF this, of 9 "VInt 2"]
  have "active_quizzes (snd (complete_quiz (w_with [q_single]) 5)) 5 = None"
    and "get_current_question (snd (complete_quiz (w_with [q_single]) 5)) 5 = Inr None"
    and "submit_answer (snd (complete_quiz (w_with [q_single]) 5)) 5 9 (VInt 2)
           = (Inr (SFail NoActiveQuiz), snd (complete_quiz (w_with [q_single]) 5))"
    by blast+
  with f show ?thesis by simp
qed

section \<open>The index stays in range\<close>

lemma start_quiz_rejects:
  assumes "filter (\<lambda>r. row_topic_id r = tid) (question_table w) = []"
  shows "start_quiz perm w u tid k = (Inr (StartFail NoQuestions), w)"
  using assms by (simp add: start_quiz_def)

lemma start_quiz_starts:
  assumes "filter (\<lambda>r. row_topic_id r = tid) (question_table w) \<noteq> []" and "0 \<le> k"
  shows "\<exists>qd. start_quiz perm w u tid k
              = (Inr (StartOk qd), w\<lparr>active_quizzes := (active_quizzes w)(u \<mapsto> qd)\<rparr>)
            \<and> current_question qd = 0 \<and> answers qd = Map.empty \<and> \<not> is_completed qd"
proof -
  let ?qs = "sort_key (\<lambda>r. qid (row_question r))
               (filter (\<lambda>r. row_topic_id r = tid) (question_table w))"
  have "length ?qs \<noteq> 0" using assms(1) by (simp del: length_0_conv)
  then have ne: "?qs \<noteq> []" by (simp del: length_sort)
  have "\<not> min k (len ?qs) < 0" using assms(2) by (simp add: len_def)
  with ne show ?thesis by (simp add: start_quiz_def Let_def)
qed

lemma submit_answer_exact:
  assumes "active_quizzes w u = Some qd" and "0 \<le> current_question qd"
  shows "len (questions qd) \<le> current_question qd
           \<longrightarrow> submit_answer w u q a = (Inr (SFail QuestionsOver), w)"
    and "current_question qd + 1 < len (questions qd)
           \<longrightarrow> submit_answer w u q a =
                 (Inr (SOk False None),
                  w\<lparr>active_quizzes := (active_quizzes w)(u \<mapsto>
                       qd\<lparr>answers := (answers qd)
                              (py_str (qid (questions qd ! nat (current_question qd))) \<mapsto> a),
                          current_question := current_question qd + 1\<rparr>)\<rparr>)"
    and "current_question qd + 1 = len (questions qd)
           \<longrightarrow> submit_answer w u q a =
                 (case complete_quiz
                         (w\<lparr>active_quizzes := (active_quizzes w)(u \<mapsto>
                              qd\<lparr>answers := (answers qd)
                                     (py_str (qid (questions qd ! nat (current_question qd)))
                                        \<mapsto> a),
                                 current_question := current_question qd + 1,
                                 is_completed := True\<rparr>)\<rparr>) u of
                    (Inl e, w') \<Rightarrow> (Inl e, w')
                  | (Inr r, w') \<Rightarrow> (Inr (SOk True (Some r)), w'))"
  using assms by (simp_all add: submit_answer_def py_get_in_range Let_def)

lemma skip_question_exact:
  assumes "active_quizzes w u = Some qd"
  shows "len (questions qd) \<le> current_question qd
           \<longrightarrow> skip_question w u = (Inr (SFail QuestionsOver), w)"
    and "current_question qd + 1 < len (questions qd)
           \<longrightarrow> skip_question w u =
                 (Inr (SOk False None),
                  w\<lparr>active_quizzes := (active_quizzes w)(u \<mapsto>
                       qd\<lparr>current_question := current_question qd + 1\<rparr>)\<rparr>)"
    and "current_question qd + 1 = len (questions qd)
           \<longrightarrow> skip_question w u =
                 (case complete_quiz
                         (w\<lparr>active_quizzes := (active_quizzes w)(u \<mapsto>
                              qd\<lparr>current_question := current_question qd + 1,
                                 is_completed := True\<rparr>)\<rparr>) u of
                    (Inl e, w') \<Rightarrow> (Inl e, w')
                  | (Inr r, w') \<Rightarrow> (Inr (SOk True (Some r)), w'))"
  using assms by (simp_all add: skip_question_def Let_def)

text \<open>
  Claim C9. The index \<open>current_question\<close> of every session stays between 0 and the number
  of questions under every operation: \<open>start_quiz\<close>, \<open>submit_answer\<close>, \<open>skip_question\<close>,
  \<open>complete_quiz\<close> and every button the handler accepts. \<open>start_quiz\<close> on a topic that has
  questions stores a session with index 0 (and on a topic without questions changes
  nothing). \<open>submit_answer\<close> and \<open>skip_question\<close> fail without a change when the index has
  reached the number of questions; below it they add exactly 1: before the last question
  they store the session with the index one higher, at the last question they hand the
  session with the index one higher to \<open>complete_quiz\<close>. A session that is still in the
  store afterwards has the same questions and the index one higher.
\<close>

theorem current_index_stays_in_range:
  assumes "session_in_range w v"
  shows "session_in_range (snd (start_quiz perm w u tid k)) v
    \<and> session_in_range (snd (submit_answer w u q a)) v
    \<and> session_in_range (snd (skip_question w u)) v
    \<and> session_in_range (snd (complete_quiz w u)) v
    \<and> session_in_range (snd (handle_test_button choice perm w u cb)) v
    \<and> (filter (\<lambda>r. row_topic_id r = tid) (question_table w) \<noteq> [] \<and> 0 \<le> k
          \<longrightarrow> (\<exists>qd. start_quiz perm w u tid k
                      = (Inr (StartOk qd), w\<lparr>active_quizzes := (active_quizzes w)(u \<mapsto> qd)\<rparr>)
                    \<and> current_question qd = 0 \<and> answers qd = Map.empty
                    \<and> \<not> is_completed qd))
    \<and> (filter (\<lambda>r. row_topic_id r = tid) (question_table w) = []
          \<longrightarrow> start_quiz perm w u tid k = (Inr (StartFail NoQuestions), w))
    \<and> (\<forall>qd. active_quizzes w v = Some qd \<longrightarrow>
          (len (questions qd) \<le> current_question qd
             \<longrightarrow> submit_answer w v q a = (Inr (SFail QuestionsOver), w))
          \<and> (current_question qd + 1 < len (questions qd)
             \<longrightarrow> submit_answer w v q a =
                   (Inr (SOk False None),
                    w\<lparr>active_quizzes := (active_quizzes w)(v \<mapsto>
                         qd\<lparr>answers := (answers qd)
                                (py_str (qid (questions qd ! nat (current_question qd)))
                                   \<mapsto> a),
                            current_question := current_question qd + 1\<rparr>)\<rparr>))
          \<and> (current_question qd + 1 = len (questions qd)
             \<longrightarrow> submit_answer w v q a =
                   (case complete_quiz
                           (w\<lparr>active_quizzes := (active_quizzes w)(v \<mapsto>
                                qd\<lparr>answers := (answers qd)
                                       (py_str (qid (questions qd ! nat (current_question qd)))
                                          \<mapsto> a),
                                   current_question := current_question qd + 1,
                                   is_completed := True\<rparr>)\<rparr>) v of
                      (Inl e, w') \<Rightarrow> (Inl e, w')
                    | (Inr r, w') \<Rightarrow> (Inr (SOk True (Some r)), w'))))
    \<and> (\<forall>qd. active_quizzes w v = Some qd \<longrightarrow>
          (len (questions qd) \<le> current_question qd
             \<longrightarrow> skip_question w v = (Inr (SFail QuestionsOver), w))
          \<and> (current_question qd + 1 < len (questions qd)
             \<longrightarrow> skip_question w v =
                   (Inr (SOk False None),
                    w\<lparr>active_quizzes := (active_quizzes w)(v \<mapsto>
                         qd\<lparr>current_question := current_question qd + 1\<rparr>)\<rparr>))
          \<and> (current_question qd + 1 = len (questions qd)
             \<longrightarrow> skip_question w v =
                   (case complete_quiz
                           (w\<lparr>active_quizzes := (active_quizzes w)(v \<mapsto>
                                qd\<lparr>current_question := current_question qd + 1,
                                   is_completed := True\<rparr>)\<rparr>) v of
                      (Inl e, w') \<Rightarrow> (Inl e, w')
                    | (Inr r, w') \<Rightarrow> (Inr (SOk True (Some r)), w'))))
    \<and> (\<forall>qd qd'. active_quizzes w v = Some qd
          \<and> active_quizzes (snd (submit_answer w v q a)) v = Some qd'
          \<longrightarrow> current_question qd' =
                (if current_question qd < len (questions qd) then current_question qd + 1
                 else current_question qd)
              \<and> questions qd' = questions qd)
    \<and> (\<forall>qd qd'. active_quizzes w v = Some qd
          \<and> active_quizzes (snd (skip_question w v)) v = Some qd'
          \<longrightarrow> current_question qd' =
                (if current_question qd < len (questions qd) then current_question qd + 1
                 else current_question qd)
              \<and> questions qd' = questions qd)"
proof -
  have sub: "current_question qd' =
                (if current_question qd < len (questions qd) then current_question qd + 1
                 else current_question qd)
              \<and> questions qd' = questions qd"
    if "active_quizzes w v = Some qd"
      and "active_quizzes (snd (submit_answer w v q a)) v = Some qd'" for qd qd'
  proof -
    from assms that(1) have "index_in_range qd" by (simp add: session_in_range_def)
    then show ?thesis by (rule submit_answer_step [OF that(1) _ that(2)])
  qed
  have skp: "current_question qd' =
                (if current_question qd < len (questions qd) then current_question qd + 1
                 else current_question qd)
              \<and> questions qd' = questions qd"
    if "active_quizzes w v = Some qd"
      and "active_quizzes (snd (skip_question w v)) v = Some qd'" for qd qd'
    using skip_question_step [OF that] by simp
  have inv: "session_in_range (snd (start_quiz perm w u tid k)) v"
    "session_in_range (snd (submit_answer w u q a)) v"
    "session_in_range (snd (skip_question w u)) v"
    "session_in_range (snd (complete_quiz w u)) v"
    "session_in_range (snd (handle_test_button choice perm w u cb)) v"
    using assms
    by (simp_all add: start_quiz_in_range submit_answer_in_range skip_question_in_range
        complete_quiz_in_range handle_test_button_in_range)
  have st: "filter (\<lambda>r. row_topic_id r = tid) (question_table w) \<noteq> [] \<and> 0 \<le> k
          \<longrightarrow> (\<exists>qd. start_quiz perm w u tid k
                      = (Inr (StartOk qd), w\<lparr>active_quizzes := (active_quizzes w)(u \<mapsto> qd)\<rparr>)
                    \<and> current_question qd = 0 \<and> answers qd = Map.empty
                    \<and> \<not> is_completed qd)"
    using start_quiz_starts [of tid w k perm u] by blast
  have rej: "filter (\<lambda>r. row_topic_id r = tid) (question_table w) = []
          \<longrightarrow> start_quiz perm w u tid k = (Inr (StartFail NoQuestions), w)"
    using start_quiz_rejects [of tid w perm u k] by blast
  have nonneg: "0 \<le> current_question qd" if "active_quizzes w v = Some qd" for qd
    using assms that by (simp add: session_in_range_def index_in_range_def)
  have subx: "\<forall>qd. active_quizzes w v = Some qd \<longrightarrow>
          (len (questions qd) \<le> current_question qd
             \<longrightarrow> submit_answer w v q a = (Inr (SFail QuestionsOver), w))
          \<and> (current_question qd + 1 < len (questions qd)
             \<longrightarrow> submit_answer w v q a =
                   (Inr (SOk False None),
                    w\<lparr>active_quizzes := (active_quizzes w)(v \<mapsto>
                         qd\<lparr>answers := (answers qd)
                                (py_str (qid (questions qd ! nat (current_question qd)))
                                   \<mapsto> a),
                            current_question := current_question qd + 1\<rparr>)\<rparr>))
          \<and> (current_question qd + 1 = len (questions qd)
             \<longrightarrow> submit_answer w v q a =
                   (case complete_quiz
                           (w\<lparr>active_quizzes := (active_quizzes w)(v \<mapsto>
                                qd\<lparr>answers := (answers qd)
                                       (py_str (qid (questions qd ! nat (current_question qd)))
                                          \<mapsto> a),
                                   current_question := current_question qd + 1,
                                   is_completed := True\<rparr>)\<rparr>) v of
                      (Inl e, w') \<Rightarrow> (Inl e, w')
                    | (Inr r, w') \<Rightarrow> (Inr (SOk True (Some r)), w')))"
    by (intro allI impI conjI submit_answer_exact [THEN mp] nonneg) assumption+
  have skpx: "\<forall>qd. active_quizzes w v = Some qd \<longrightarrow>
          (len (questions qd) \<le> current_question qd
             \<longrightarrow> skip_question w v = (Inr (SFail QuestionsOver), w))
          \<and> (current_question qd + 1 < len (questions qd)
             \<longrightarrow> skip_question w v =
                   (Inr (SOk False None),
                    w\<lparr>active_quizzes := (active_quizzes w)(v \<mapsto>
                         qd\<lparr>current_question := current_question qd + 1\<rparr>)\<rparr>))
          \<and> (current_question qd + 1 = len (questions qd)
             \<longrightarrow> skip_question w v =
                   (case complete_quiz
                           (w\<lparr>active_quizzes := (active_quizzes w)(v \<mapsto>
                                qd\<lparr>current_question := current_question qd + 1,
                                   is_completed := True\<rparr>)\<rparr>) v of
                      (Inl e, w') \<Rightarrow> (Inl e, w')
                    | (Inr r, w') \<Rightarrow> (Inr (SOk True (Some r)), w')))"
    by (intro allI impI conjI skip_question_exact [THEN mp]) assumption+
  have sub': "\<forall>qd qd'. active_quizzes w v = Some qd
          \<and> active_quizzes (snd (submit_answer w v q a)) v = Some qd'
          \<longrightarrow> current_question qd' =
                (if current_question qd < len (questions qd) then current_question qd + 1
                 else current_question qd)
              \<and> questions qd' = questions qd"
    using sub by blast
  have skp': "\<forall>qd qd'. active_quizzes w v = Some qd
          \<and> active_quizzes (snd (skip_question w v)) v = Some qd'
          \<longrightarrow> current_question qd' =
                (if current_question qd < len (questions qd) then current_question qd + 1
                 else current_question qd)
              \<and> questions qd' = questions qd"
    using skp by blast
  show ?thesis by (intro conjI inv st rej subx skpx sub' skp')
qed

theorem current_index_stays_in_range_witness:
  "session_in_range w_bank 5
   \<and> (\<exists>qd. start_quiz [1, 0] w_bank 5 1 10
              = (Inr (StartOk qd), w_bank\<lparr>active_quizzes := (active_quizzes w_bank)(5 \<mapsto> qd)\<rparr>)
            \<and> current_question qd = 0 \<and> answers qd = Map.empty \<and> \<not> is_completed qd)
   \<and> map_option (\<lambda>qd. (map qid (questions qd), current_question qd))
         (active_quizzes (snd (start_quiz [1, 0] w_bank 5 1 10)) 5) = Some ([9, 7], 0)
   \<and> start_quiz [1, 0] w_bank 5 3 10 = (Inr (StartFail NoQuestions), w_bank)
   \<and> session_in_range w_three 5
   \<and> submit_answer w_three 5 7 (VInt 0) =
        (Inr (SOk False None),
         w_three\<lparr>active_quizzes := (active_quizzes w_three)(5 \<mapsto>
            \<lparr>topic_id = 1, questions = [q_seq, q_multi, q_single], current_question = 1,
             answers = [''7'' \<mapsto> VInt 0], start_time = 0, is_completed = False\<rparr>)\<rparr>)
   \<and> skip_question w_three 5 =
        (Inr (SOk False None),
         w_three\<lparr>active_quizzes := (active_quizzes w_three)(5 \<mapsto>
            \<lparr>topic_id = 1, questions = [q_seq, q_multi, q_single], current_question = 1,
             answers = Map.empty, start_time = 0, is_completed = False\<rparr>)\<rparr>)
   \<and> session_in_range (snd (submit_answer w_three 5 7 (VInt 0))) 5
   \<and> session_in_range (snd (skip_question w_three 5)) 5
   \<and> session_in_range (snd (handle_test_button 0 [] w_three 5 QuizSkip)) 5"
proof -
  let ?qd = "\<lparr>topic_id = 1, questions = [q_seq, q_multi, q_single], current_question = 0,
             answers = Map.empty, start_time = 0, is_completed = False\<rparr>"
  have hb: "session_in_range w_bank 5"
    by (simp add: session_in_range_def w_bank_def)
  have rows: "filter (\<lambda>r. row_topic_id r = 1) (question_table w_bank) \<noteq> [] \<and> (0 :: int) \<le> 10"
    by (simp add: w_bank_def)
  have norows: "filter (\<lambda>r. row_topic_id r = 3) (question_table w_bank) = []"
    by (simp add: w_bank_def)
  note tb = current_index_stays_in_range [OF hb, of "[1, 0]" 5 1 10 7 "VInt 0" 0 QuizSkip]
  note tn = current_index_stays_in_range [OF hb, of "[1, 0]" 5 3 10 7 "VInt 0" 0 QuizSkip]
  have started: "\<exists>qd. start_quiz [1, 0] w_bank 5 1 10
              = (Inr (StartOk qd), w_bank\<lparr>active_quizzes := (active_quizzes w_bank)(5 \<mapsto> qd)\<rparr>)
            \<and> current_question qd = 0 \<and> answers qd = Map.empty \<and> \<not> is_completed qd"
    by (rule tb [THEN conjunct2, THEN conjunct2, THEN conjunct2, THEN conjunct2,
          THEN conjunct2, THEN conjunct1, THEN mp, OF rows])
  have rejected: "start_quiz [1, 0] w_bank 5 3 10 = (Inr (StartFail NoQuestions), w_bank)"
    by (rule tn [THEN conjunct2, THEN conjunct2, THEN conjunct2, THEN conjunct2,
          THEN conjunct2, THEN conjunct2, THEN conjunct1, THEN mp, OF norows])
  have sampled: "map_option (\<lambda>qd. (map qid (questions qd), current_question qd))
         (active_quizzes (snd (start_quiz [1, 0] w_bank 5 1 10)) 5) = Some ([9, 7], 0)"
    by (simp add: start_quiz_def random_sample_def w_bank_def q_single_def q_seq_def q_multi_def
        len_def Let_def)
  have h: "session_in_range w_three 5"
    by (simp add: session_in_range_def index_in_range_def w_three_def w_with_def len_def)
  have s: "active_quizzes w_three 5 = Some ?qd"
    by (simp add: w_three_def w_with_def)
  have lt: "current_question ?qd + 1 < len (questions ?qd)"
    by (simp add: len_def)
  have key: "py_str (qid q_seq) = ''7''"
    by (simp add: q_seq_def)
  note th = current_index_stays_in_range [OF h, of "[]" 5 1 10 7 "VInt 0" 0 QuizSkip]
  note sub = th [THEN conjunct2, THEN conjunct2, THEN conjunct2, THEN conjunct2,
      THEN conjunct2, THEN conjunct2, THEN conjunct2, THEN conjunct1, THEN spec, THEN mp,
      OF s, THEN conjunct2, THEN conjunct1, THEN mp, OF lt]
  note skp = th [THEN conjunct2, THEN conjunct2, THEN conjunct2, THEN conjunct2,
      THEN conjunct2, THEN conjunct2, THEN conjunct2, THEN conjunct2, THEN conjunct1,
      THEN spec, THEN mp, OF s, THEN conjunct2, THEN conjunct1, THEN mp, OF lt]
  have sub': "submit_answer w_three 5 7 (VInt 0) =
        (Inr (SOk False None),
         w_three\<lparr>active_quizzes := (active_quizzes w_three)(5 \<mapsto>
            \<lparr>topic_id = 1, questions = [q_seq, q_multi, q_single], current_question = 1,
             answers = [''7'' \<mapsto> VInt 0], start_time = 0, is_completed = False\<rparr>)\<rparr>)"
    using sub by (simp add: key)
  have skp': "skip_question w_three 5 =
        (Inr (SOk False None),
         w_three\<lparr>active_quizzes := (active_quizzes w_three)(5 \<mapsto>
            \<lparr>topic_id = 1, questions = [q_seq, q_multi, q_single], current_question = 1,
             answers = Map.empty, start_time = 0, is_completed = False\<rparr>)\<rparr>)"
    using skp by simp
  have a: "session_in_range (snd (submit_answer w_three 5 7 (VInt 0))) 5"
    by (rule th [THEN conjunct2, THEN conjunct1])
  have b: "session_in_range (snd (skip_question w_three 5)) 5"
    by (rule th [THEN conjunct2, THEN conjunct2, THEN conjunct1])
  have d: "session_in_range (snd (handle_test_button 0 [] w_three 5 QuizSkip)) 5"
    by (rule th [THEN conjunct2, THEN conjunct2, THEN conjunct2, THEN conjunct2,
          THEN conjunct1])
  show ?thesis by (intro conjI hb started sampled rejected h sub' skp' a b d)
qed

section \<open>Stale buttons\<close>

text \<open>
  \<open>submit_answer\<close> never reads its argument \<open>question_id\<close>: called with the id of another
  question it stores the answer under the id of the current question and moves on. Here
  the current question has id 7 and the call names question 9.
\<close>

theorem submit_answer_accepts_other_question_id:
  "get_current_question w_three 5 = Inr (Some q_seq) \<and> qid q_seq \<noteq> 9
   \<and> fst (submit_answer w_three 5 9 (VInt 2)) = Inr (SOk False None)
   \<and> map_option current_question (active_quizzes w_three 5) = Some 0
   \<and> map_option current_question
        (active_quizzes (snd (submit_answer w_three 5 9 (VInt 2))) 5) = Some 1
   \<and> map_option (\<lambda>qd. answers qd ''7'') (active_quizzes w_three 5) = Some None
   \<and> map_option (\<lambda>qd. answers qd ''7'')
        (active_quizzes (snd (submit_answer w_three 5 9 (VInt 2))) 5) = Some (Some (VInt 2))"
  by (simp add: run_defs)

text \<open>
  Claim C1, as amended. The check of the question id is made by the button handler, not
  by \<open>submit_answer\<close>: when a session is in progress and a button for answering,
  confirming, extending or resetting names a question other than the current one, the
  handler sends nothing and the whole state is unchanged.
\<close>

theorem stale_button_is_ignored:
  assumes "get_current_question w user_id = Inr (Some cq)"
    and "qid cq \<noteq> question_id"
  shows "handle_test_button choice perm w user_id (QuizAnswer question_id option_index)
           = (NoReply, w)
    \<and> handle_test_button choice perm w user_id (QuizConfirm question_id) = (NoReply, w)
    \<and> handle_test_button choice perm w user_id (QuizSeq question_id option_index)
           = (NoReply, w)
    \<and> handle_test_button choice perm w user_id (QuizReset question_id) = (NoReply, w)"
  using assms by (simp add: handle_test_button_def handle_body_def)

theorem stale_button_is_ignored_witness:
  "get_current_question w_three 5 = Inr (Some q_seq) \<and> qid q_seq \<noteq> 9
   \<and> handle_test_button 0 [] w_three 5 (QuizAnswer 9 2) = (NoReply, w_three)
   \<and> handle_test_button 0 [] w_three 5 (QuizConfirm 9) = (NoReply, w_three)
   \<and> handle_test_button 0 [] w_three 5 (QuizSeq 9 2) = (NoReply, w_three)
   \<and> handle_test_button 0 [] w_three 5 (QuizReset 9) = (NoReply, w_three)"
proof -
  have cur: "get_current_question w_three 5 = Inr (Some q_seq)"
    by (simp add: run_defs)
  have ne: "qid q_seq \<noteq> 9" by (simp add: q_seq_def)
  show ?thesis
    using cur ne stale_button_is_ignored [OF cur ne, of 0 "[]" 2] by blast
qed

section \<open>Sequence answers: repeats and short lists\<close>

text \<open>
  Claim C4. The handler appends the pressed option to the sequence without looking at
  what the sequence holds. \<open>format_question_message\<close> would offer only the options not yet
  chosen (\<open>remaining_options\<close>), but \<open>show_question\<close> calls it without the user, so the
  keyboard sent after the first press still offers option 0; pressing it again records
  the sequence \<open>["0", "0"]\<close>.
\<close>

theorem sequence_accepts_repeated_index:
  "get_current_question w_three 5 = Inr (Some q_seq)
   \<and> question_type q_seq = ''sequence''
   \<and> fst (handle_test_button 0 [] w_three 5 (QuizSeq 7 0))
       = ShowedQuestion (format_question_keyboard q_seq)
   \<and> QuizSeq 7 0 \<in> set (format_question_keyboard q_seq)
   \<and> remaining_options q_seq [VStr ''0''] = [1, 2]
   \<and> get_current_sequence (press_buttons w_three 5 [QuizSeq 7 0]) 5 7 = VList [VStr ''0'']
   \<and> get_current_sequence (press_buttons w_three 5 [QuizSeq 7 0, QuizSeq 7 0]) 5 7
       = VList [VStr ''0'', VStr ''0'']"
  by (simp add: run_defs format_question_keyboard_def remaining_options_def upt_rec)

text \<open>
  A sequence question with three options, one option chosen: the confirm button is
  accepted, the one-element list is recorded as the answer and the session moves on to
  the next question.
\<close>

theorem short_sequence_is_confirmed:
  "get_current_question w_three 5 = Inr (Some q_seq)
   \<and> question_type q_seq = ''sequence'' \<and> length (options q_seq) = 3
   \<and> get_current_sequence (press_buttons w_three 5 [QuizSeq 7 2]) 5 7 = VList [VStr ''2'']
   \<and> fst (handle_test_button 0 [] (press_buttons w_three 5 [QuizSeq 7 2]) 5 (QuizConfirm 7))
       = ShowedQuestion (format_question_keyboard q_multi)
   \<and> map_option current_question
        (active_quizzes (press_buttons w_three 5 [QuizSeq 7 2, QuizConfirm 7]) 5) = Some 1
   \<and> map_option (\<lambda>qd. answers qd ''7'')
        (active_quizzes (press_buttons w_three 5 [QuizSeq 7 2, QuizConfirm 7]) 5)
       = Some (Some (VList [VStr ''2'']))"
  by (simp add: run_defs)

lemma get_current_question_in_range:
  assumes "active_quizzes w u = Some qd"
    and "0 \<le> current_question qd" and "current_question qd < len (questions qd)"
  shows "get_current_question w u = Inr (Some (questions qd ! nat (current_question qd)))"
  using assms by (simp add: get_current_question_def py_get_in_range)

text \<open>
  Claim C3, as amended. For every in-progress session the confirm button of the current
  question is accepted whatever the accumulated list holds, be it shorter than the
  options of a sequence question or empty: the list as it stands is recorded as the
  answer and the index moves on by one; before the last question the next question is
  shown, at the last question the quiz is completed with that answer.
\<close>

theorem confirm_accepts_any_length:
  assumes "active_quizzes w u = Some qd"
    and "0 \<le> current_question qd" and "current_question qd < len (questions qd)"
    and "cq = questions qd ! nat (current_question qd)"
  shows "(current_question qd + 1 < len (questions qd)
           \<longrightarrow> handle_test_button choice perm w u (QuizConfirm (qid cq)) =
                 (ShowedQuestion
                    (format_question_keyboard (questions qd ! nat (current_question qd + 1))),
                  w\<lparr>active_quizzes := (active_quizzes w)(u \<mapsto>
                       qd\<lparr>answers := (answers qd)
                              (py_str (qid cq) \<mapsto> get_current_sequence w u (qid cq)),
                          current_question := current_question qd + 1\<rparr>)\<rparr>))
    \<and> (current_question qd + 1 = len (questions qd)
           \<longrightarrow> handle_test_button choice perm w u (QuizConfirm (qid cq)) =
                 (case complete_quiz
                         (w\<lparr>active_quizzes := (active_quizzes w)(u \<mapsto>
                              qd\<lparr>answers := (answers qd)
                                     (py_str (qid cq) \<mapsto> get_current_sequence w u (qid cq)),
                                 current_question := current_question qd + 1,
                                 is_completed := True\<rparr>)\<rparr>) u of
                    (Inl e, w') \<Rightarrow> (SaidError e, w')
                  | (Inr r, w') \<Rightarrow> (show_test_results r, w')))"
proof (intro conjI impI)
  let ?acc = "get_current_sequence w u (qid cq)"
  have g: "get_current_question w u = Inr (Some cq)"
    using assms by (simp add: get_current_question_in_range)
  have body: "handle_body choice perm w u (QuizConfirm (qid cq))
      = after_result (submit_answer w u (qid cq) ?acc) u"
    by (simp add: handle_body_def g)
  {
    assume lt: "current_question qd + 1 < len (questions qd)"
    let ?qd1 = "qd\<lparr>answers := (answers qd)(py_str (qid cq) \<mapsto> ?acc),
                   current_question := current_question qd + 1\<rparr>"
    let ?w1 = "w\<lparr>active_quizzes := (active_quizzes w)(u \<mapsto> ?qd1)\<rparr>"
    have sub: "submit_answer w u (qid cq) ?acc = (Inr (SOk False None), ?w1)"
      using submit_answer_exact(2) [OF assms(1,2), of "qid cq" ?acc] lt assms(4) by simp
    have "active_quizzes ?w1 u = Some ?qd1" by simp
    moreover have "0 \<le> current_question ?qd1" using assms(2) by simp
    moreover have "current_question ?qd1 < len (questions ?qd1)" using lt by simp
    ultimately have g1: "get_current_question ?w1 u
        = Inr (Some (questions ?qd1 ! nat (current_question ?qd1)))"
      by (rule get_current_question_in_range)
    have "show_question ?w1 u
        = (Inr (ShowedQuestion
             (format_question_keyboard (questions qd ! nat (current_question qd + 1)))), ?w1)"
      unfolding show_question_def g1 by simp
    then show "handle_test_button choice perm w u (QuizConfirm (qid cq)) =
                 (ShowedQuestion
                    (format_question_keyboard (questions qd ! nat (current_question qd + 1))),
                  ?w1)"
      by (simp add: handle_test_button_def body sub after_result_def)
  }
  {
    assume last: "current_question qd + 1 = len (questions qd)"
    let ?w2 = "w\<lparr>active_quizzes := (active_quizzes w)(u \<mapsto>
                  qd\<lparr>answers := (answers qd)(py_str (qid cq) \<mapsto> ?acc),
                     current_question := current_question qd + 1,
                     is_completed := True\<rparr>)\<rparr>"
    have sub: "submit_answer w u (qid cq) ?acc =
        (case complete_quiz ?w2 u of
           (Inl e, w') \<Rightarrow> (Inl e, w')
         | (Inr r, w') \<Rightarrow> (Inr (SOk True (Some r)), w'))"
      using submit_answer_exact(3) [OF assms(1,2), of "qid cq" ?acc] last assms(4) by simp
    show "handle_test_button choice perm w u (QuizConfirm (qid cq)) =
            (case complete_quiz ?w2 u of
               (Inl e, w') \<Rightarrow> (SaidError e, w')
             | (Inr r, w') \<Rightarrow> (show_test_results r, w'))"
      by (simp add: handle_test_button_def body sub after_result_def
          split: prod.splits sum.splits)
  }
qed

theorem confirm_accepts_any_length_witness:
  "handle_test_button 0 [] (press_buttons w_three 5 [QuizSeq 7 2]) 5 (QuizConfirm 7) =
     (ShowedQuestion (format_question_keyboard q_multi),
      (press_buttons w_three 5 [QuizSeq 7 2])
        \<lparr>active_quizzes := (active_quizzes (press_buttons w_three 5 [QuizSeq 7 2]))(5 \<mapsto>
           \<lparr>topic_id = 1, questions = [q_seq, q_multi, q_single], current_question = 1,
            answers = [''7'' \<mapsto> VList [VStr ''2'']], start_time = 0,
            is_completed = False\<rparr>)\<rparr>)
   \<and> handle_test_button 0 [] w_three 5 (QuizConfirm 7) =
     (ShowedQuestion (format_question_keyboard q_multi),
      w_three\<lparr>active_quizzes := (active_quizzes w_three)(5 \<mapsto>
           \<lparr>topic_id = 1, questions = [q_seq, q_multi, q_single], current_question = 1,
            answers = [''7'' \<mapsto> VList []], start_time = 0, is_completed = False\<rparr>)\<rparr>)
   \<and> handle_test_button 0 [] (press_buttons (w_with [q_seq]) 5 [QuizSeq 7 2]) 5 (QuizConfirm 7) =
     (case complete_quiz
             ((press_buttons (w_with [q_seq]) 5 [QuizSeq 7 2])
                \<lparr>active_quizzes :=
                   (active_quizzes (press_buttons (w_with [q_seq]) 5 [QuizSeq 7 2]))(5 \<mapsto>
                     \<lparr>topic_id = 1, questions = [q_seq], current_question = 1,
                      answers = [''7'' \<mapsto> VList [VStr ''2'']], start_time = 0,
                      is_completed = True\<rparr>)\<rparr>) 5 of
        (Inl e, w') \<Rightarrow> (SaidError e, w')
      | (Inr r, w') \<Rightarrow> (show_test_results r, w'))
   \<and> fst (handle_test_button 0 [] (press_buttons (w_with [q_seq]) 5 [QuizSeq 7 2]) 5
            (QuizConfirm 7)) =
     ShowedResults
       \<lparr>correct_count = 0, total_questions = 1, out_percentage = 0,
        question_results =
          [\<lparr>qr_question = ''Order the events'',
            qr_user_answer = Some (VList [VStr ''2'']),
            qr_correct_answer = VList [VStr ''2'', VStr ''0'', VStr ''1''],
            qr_is_correct = False, qr_explanation = None\<rparr>]\<rparr>"
proof -
  let ?W = "press_buttons w_three 5 [QuizSeq 7 2]"
  let ?qd = "\<lparr>topic_id = 1, questions = [q_seq, q_multi, q_single], current_question = 0,
             answers = [''7'' \<mapsto> VList [VStr ''2'']], start_time = 0,
             is_completed = False\<rparr>"
  let ?qe = "\<lparr>topic_id = 1, questions = [q_seq, q_multi, q_single], current_question = 0,
             answers = Map.empty, start_time = 0, is_completed = False\<rparr>"
  let ?V = "press_buttons (w_with [q_seq]) 5 [QuizSeq 7 2]"
  let ?qf = "\<lparr>topic_id = 1, questions = [q_seq], current_question = 0,
             answers = [''7'' \<mapsto> VList [VStr ''2'']], start_time = 0,
             is_completed = False\<rparr>"
  have id7: "qid q_seq = 7" by (simp add: q_seq_def)
  have s: "active_quizzes ?W 5 = Some ?qd" by (simp add: run_defs)
  have acc: "get_current_sequence ?W 5 7 = VList [VStr ''2'']" by (simp add: run_defs)
  have s0: "active_quizzes w_three 5 = Some ?qe" by (simp add: run_defs)
  have acc0: "get_current_sequence w_three 5 7 = VList []" by (simp add: run_defs)
  have sv: "active_quizzes ?V 5 = Some ?qf" by (simp add: run_defs)
  have accv: "get_current_sequence ?V 5 7 = VList [VStr ''2'']" by (simp add: run_defs)
  have one: "handle_test_button 0 [] ?W 5 (QuizConfirm 7) =
     (ShowedQuestion (format_question_keyboard q_multi),
      ?W\<lparr>active_quizzes := (active_quizzes ?W)(5 \<mapsto>
           \<lparr>topic_id = 1, questions = [q_seq, q_multi, q_single], current_question = 1,
            answers = [''7'' \<mapsto> VList [VStr ''2'']], start_time = 0,
            is_completed = False\<rparr>)\<rparr>)"
    using confirm_accepts_any_length [of ?W 5 ?qd q_seq 0 "[]", OF s]
    by (simp add: len_def id7 acc)
  have none: "handle_test_button 0 [] w_three 5 (QuizConfirm 7) =
     (ShowedQuestion (format_question_keyboard q_multi),
      w_three\<lparr>active_quizzes := (active_quizzes w_three)(5 \<mapsto>
           \<lparr>topic_id = 1, questions = [q_seq, q_multi, q_single], current_question = 1,
            answers = [''7'' \<mapsto> VList []], start_time = 0, is_completed = False\<rparr>)\<rparr>)"
    using confirm_accepts_any_length [of w_three 5 ?qe q_seq 0 "[]", OF s0]
    by (simp add: len_def id7 acc0)
  have last: "handle_test_button 0 [] ?V 5 (QuizConfirm 7) =
     (case complete_quiz
             (?V\<lparr>active_quizzes := (active_quizzes ?V)(5 \<mapsto>
                     \<lparr>topic_id = 1, questions = [q_seq], current_question = 1,
                      answers = [''7'' \<mapsto> VList [VStr ''2'']], start_time = 0,
                      is_completed = True\<rparr>)\<rparr>) 5 of
        (Inl e, w') \<Rightarrow> (SaidError e, w')
      | (Inr r, w') \<Rightarrow> (show_test_results r, w'))"
    using confirm_accepts_any_length [of ?V 5 ?qf q_seq 0 "[]", OF sv]
    by (simp add: len_def id7 accv)
  have res: "fst (handle_test_button 0 [] ?V 5 (QuizConfirm 7)) =
     ShowedResults
       \<lparr>correct_count = 0, total_questions = 1, out_percentage = 0,
        question_results =
          [\<lparr>qr_question = ''Order the events'',
            qr_user_answer = Some (VList [VStr ''2'']),
            qr_correct_answer = VList [VStr ''2'', VStr ''0'', VStr ''1''],
            qr_is_correct = False, qr_explanation = None\<rparr>]\<rparr>"
    by (simp add: run_defs complete_quiz_def is_correct_def admin_sequence_answer_def Let_def
        py_round1_def split: prod.splits)
  show ?thesis by (intro conjI one none last res)
qed

section \<open>Toggling the options of a multiple-choice question\<close>

lemma filter_is_VInt_remove1:
  "filter is_VInt (remove1 (VInt i) xs) = remove1 (VInt i) (filter is_VInt xs)"
  by (induction xs) auto

lemma toggled_selection_ok:
  assumes "distinct (filter is_VInt xs)"
  shows "distinct (filter is_VInt
           (if VInt i \<in> set xs then remove1 (VInt i) xs else xs @ [VInt i]))"
  using assms by (simp add: filter_is_VInt_remove1)

lemma toggled_membership:
  assumes "distinct (filter is_VInt xs)"
  shows "VInt j \<in> set (if VInt i \<in> set xs then remove1 (VInt i) xs else xs @ [VInt i])
         \<longleftrightarrow> (if j = i then VInt i \<notin> set xs else VInt j \<in> set xs)"
proof (cases "VInt i \<in> set xs")
  case True
  have "VInt i \<notin> set (remove1 (VInt i) (filter is_VInt xs))"
    using assms by simp
  then have "VInt i \<notin> set (filter is_VInt (remove1 (VInt i) xs))"
    by (simp add: filter_is_VInt_remove1)
  then have gone: "VInt i \<notin> set (remove1 (VInt i) xs)" by simp
  show ?thesis
  proof (cases "j = i")
    case True
    with \<open>VInt i \<in> set xs\<close> gone show ?thesis by simp
  next
    case False
    then have "VInt j \<noteq> VInt i" by simp
    then have "VInt j \<in> set (remove1 (VInt i) xs) \<longleftrightarrow> VInt j \<in> set xs"
      by (rule in_set_remove1)
    with False \<open>VInt i \<in> set xs\<close> show ?thesis by simp
  qed
next
  case False
  then show ?thesis by auto
qed

lemma set_answer_session:
  assumes "active_quizzes w u = Some qd"
  shows "set_answer w u q x =
           w\<lparr>active_quizzes := (active_quizzes w)(u \<mapsto>
                qd\<lparr>answers := (answers qd)(py_str q \<mapsto> x)\<rparr>)\<rparr>"
  using assms by (simp add: set_answer_def)

lemma toggle_step:
  fixes i :: int
  assumes s: "active_quizzes w u = Some qd"
    and lo: "0 \<le> current_question qd" and hi: "current_question qd < len (questions qd)"
    and cq: "cq = questions qd ! nat (current_question qd)"
    and ty: "question_type cq = ''multiple''"
    and sel: "get_current_sequence w u (qid cq) = VList xs"
  defines "xs' \<equiv> (if VInt i \<in> set xs then remove1 (VInt i) xs else xs @ [VInt i])"
  defines "qd' \<equiv> qd\<lparr>answers := (answers qd)(py_str (qid cq) \<mapsto> VList xs')\<rparr>"
  defines "w' \<equiv> w\<lparr>active_quizzes := (active_quizzes w)(u \<mapsto> qd')\<rparr>"
  shows "handle_test_button choice perm w u (QuizAnswer (qid cq) i)
           = (ShowedQuestion (format_question_keyboard cq), w')"
    and "active_quizzes w' u = Some qd'"
    and "get_current_sequence w' u (qid cq) = VList xs'"
    and "current_question qd' = current_question qd" and "questions qd' = questions qd"
proof -
  have g: "get_current_question w u = Inr (Some cq)"
    using s lo hi cq by (simp add: get_current_question_in_range)
  have sa: "set_answer w u (qid cq) (VList xs') = w'"
    using s by (simp add: set_answer_session w'_def qd'_def)
  show s': "active_quizzes w' u = Some qd'" by (simp add: w'_def)
  have "get_current_question w' u = Inr (Some cq)"
    using s' lo hi cq
    by (simp add: get_current_question_def py_get_in_range qd'_def)
  then have sq: "show_question w' u = (Inr (ShowedQuestion (format_question_keyboard cq)), w')"
    by (simp add: show_question_def)
  show "handle_test_button choice perm w u (QuizAnswer (qid cq) i)
           = (ShowedQuestion (format_question_keyboard cq), w')"
    by (simp add: handle_test_button_def handle_body_def g ty sel toggle_option_def
        xs'_def [symmetric] sa sq)
  show "get_current_sequence w' u (qid cq) = VList xs'"
    by (simp add: get_current_sequence_def w'_def qd'_def)
  show "current_question qd' = current_question qd" and "questions qd' = questions qd"
    by (simp_all add: qd'_def)
qed

lemma selection_ok_current:
  assumes "selections_ok w u"
  shows "selection_ok (get_current_sequence w u q)"
  using assms
  by (auto simp add: selections_ok_def get_current_sequence_def selection_ok_def
      split: option.splits)

lemma toggle_option_ok:
  assumes "selection_ok sel" and "toggle_option sel i = Inr x"
  shows "selection_ok x"
proof (cases sel)
  case (VList xs)
  with assms(1) have "distinct (filter is_VInt xs)" by (simp add: selection_ok_def)
  then have "distinct (filter is_VInt
           (if VInt i \<in> set xs then remove1 (VInt i) xs else xs @ [VInt i]))"
    by (rule toggled_selection_ok)
  with VList assms(2) show ?thesis
    by (auto simp add: toggle_option_def selection_ok_def)
qed (use assms in \<open>simp_all add: toggle_option_def\<close>)

lemma append_choice_ok:
  assumes "selection_ok sel" and "append_choice sel i = Inr x"
  shows "selection_ok x"
  using assms by (cases sel) (auto simp add: append_choice_def selection_ok_def)

lemma set_answer_selections_ok:
  assumes "selections_ok w v" and "v = u \<longrightarrow> selection_ok x"
  shows "selections_ok (set_answer w u q x) v"
  using assms
  by (auto simp add: selections_ok_def set_answer_def split: option.splits if_splits)

lemma complete_quiz_selections_ok:
  assumes "selections_ok w v"
  shows "selections_ok (snd (complete_quiz w u)) v"
  using assms complete_quiz_other [of w u v] by (auto simp add: selections_ok_def)

lemma submit_answer_selections_ok:
  assumes "selections_ok w v" and "v = u \<longrightarrow> selection_ok a"
  shows "selections_ok (snd (submit_answer w u q a)) v"
proof (cases rule: submit_answer_cases [of w u q a])
  case (advance qd cq)
  with assms show ?thesis
    by (auto simp add: selections_ok_def split: if_splits)
next
  case (complete qd cq)
  let ?w2 = "w\<lparr>active_quizzes := (active_quizzes w)(u \<mapsto>
                qd\<lparr>answers := (answers qd)(py_str (qid cq) \<mapsto> a),
                   current_question := current_question qd + 1,
                   is_completed := True\<rparr>)\<rparr>"
  have "selections_ok ?w2 v"
    using assms complete(1) by (auto simp add: selections_ok_def split: if_splits)
  then have "selections_ok (snd (complete_quiz ?w2 u)) v"
    by (rule complete_quiz_selections_ok)
  with complete show ?thesis by simp
qed (use assms in simp_all)

lemma skip_question_selections_ok:
  assumes "selections_ok w v"
  shows "selections_ok (snd (skip_question w u)) v"
proof (cases rule: skip_question_cases [of w u])
  case (advance qd)
  with assms show ?thesis
    by (auto simp add: selections_ok_def split: if_splits)
next
  case (complete qd)
  let ?w2 = "w\<lparr>active_quizzes := (active_quizzes w)(u \<mapsto>
                qd\<lparr>current_question := current_question qd + 1,
                   is_completed := True\<rparr>)\<rparr>"
  have "selections_ok ?w2 v"
    using assms complete(1) by (auto simp add: selections_ok_def split: if_splits)
  then have "selections_ok (snd (complete_quiz ?w2 u)) v"
    by (rule complete_quiz_selections_ok)
  with complete show ?thesis by simp
qed (use assms in simp_all)

lemma start_quiz_selections_ok:
  assumes "selections_ok w v"
  shows "selections_ok (snd (start_quiz perm w u tid k)) v"
  using assms by (auto simp add: start_quiz_def Let_def selections_ok_def)

lemma handle_test_button_selections_ok:
  assumes "selections_ok w v"
  shows "selections_ok (snd (handle_test_button choice perm w u cb)) v"
proof (rule handle_test_button_preserves [where P = "\<lambda>w. selections_ok w v", OF assms])
  fix w' q i x
  assume ok: "selections_ok w' v"
  show "selections_ok (snd (submit_answer w' u q (VInt i))) v"
    using ok by (rule submit_answer_selections_ok) (simp add: selection_ok_def)
  have cur_ok: "v = u \<longrightarrow> selection_ok (get_current_sequence w' u q)"
    using ok by (auto intro: selection_ok_current)
  show "selections_ok (snd (submit_answer w' u q (get_current_sequence w' u q))) v"
    using ok cur_ok by (rule submit_answer_selections_ok)
  show "selections_ok (set_answer w' u q (VList [])) v"
    using ok by (rule set_answer_selections_ok) (simp add: selection_ok_def)
  show "selections_ok (set_answer w' u q x) v"
    if "toggle_option (get_current_sequence w' u q) i = Inr x"
    using ok
  proof (rule set_answer_selections_ok)
    show "v = u \<longrightarrow> selection_ok x"
      using ok that by (auto intro: toggle_option_ok selection_ok_current)
  qed
  show "selections_ok (set_answer w' u q x) v"
    if "append_choice (get_current_sequence w' u q) i = Inr x"
    using ok
  proof (rule set_answer_selections_ok)
    show "v = u \<longrightarrow> selection_ok x"
      using ok that by (auto intro: append_choice_ok selection_ok_current)
  qed
qed (simp_all add: start_quiz_selections_ok skip_question_selections_ok
    complete_quiz_selections_ok)

text \<open>
  Claim C10. In a session whose current question is a multiple-choice question and whose
  recorded selections hold no option index twice (which holds after \<open>start_quiz\<close> and is
  kept by every button), pressing option \<open>i\<close> shows the same question again and stores
  the selection with \<open>i\<close> added at the end when it was absent and removed when it was
  present; no other option changes. Pressing it twice leaves every option selected
  exactly as before, and the current question is still the same.
\<close>

theorem toggle_twice_restores_selection:
  fixes i j :: int and choice :: nat and perm :: "nat list"
  assumes "active_quizzes w u = Some qd"
    and "0 \<le> current_question qd" and "current_question qd < len (questions qd)"
    and "cq = questions qd ! nat (current_question qd)"
    and "question_type cq = ''multiple''"
    and "get_current_sequence w u (qid cq) = VList xs"
    and "selections_ok w u"
  defines "w1 \<equiv> snd (handle_test_button choice perm w u (QuizAnswer (qid cq) i))"
  defines "w2 \<equiv> snd (handle_test_button choice perm w1 u (QuizAnswer (qid cq) i))"
  shows "handle_test_button choice perm w u (QuizAnswer (qid cq) i) =
           (ShowedQuestion (format_question_keyboard cq),
            set_answer w u (qid cq)
              (VList (if VInt i \<in> set xs then remove1 (VInt i) xs else xs @ [VInt i])))
    \<and> is_option_selected w u (qid cq) j = Inr (VInt j \<in> set xs)
    \<and> is_option_selected w1 u (qid cq) j
        = Inr (if j = i then VInt i \<notin> set xs else VInt j \<in> set xs)
    \<and> is_option_selected w2 u (qid cq) j = is_option_selected w u (qid cq) j
    \<and> get_current_question w1 u = Inr (Some cq)
    \<and> get_current_question w2 u = Inr (Some cq)
    \<and> selections_ok w1 u \<and> selections_ok w2 u"
proof -
  let ?xs1 = "if VInt i \<in> set xs then remove1 (VInt i) xs else xs @ [VInt i]"
  let ?qd1 = "qd\<lparr>answers := (answers qd)(py_str (qid cq) \<mapsto> VList ?xs1)\<rparr>"
  let ?v1 = "w\<lparr>active_quizzes := (active_quizzes w)(u \<mapsto> ?qd1)\<rparr>"
  let ?xs2 = "if VInt i \<in> set ?xs1 then remove1 (VInt i) ?xs1 else ?xs1 @ [VInt i]"
  let ?qd2 = "?qd1\<lparr>answers := (answers ?qd1)(py_str (qid cq) \<mapsto> VList ?xs2)\<rparr>"
  let ?v2 = "?v1\<lparr>active_quizzes := (active_quizzes ?v1)(u \<mapsto> ?qd2)\<rparr>"
  note first = toggle_step [OF assms(1-6), where i = i]
  have w1: "w1 = ?v1" by (simp add: w1_def first(1))
  have cq1: "cq = questions ?qd1 ! nat (current_question ?qd1)"
    using assms(4) by simp
  have lo1: "0 \<le> current_question ?qd1" and hi1: "current_question ?qd1 < len (questions ?qd1)"
    using assms(2,3) by simp_all
  note second = toggle_step [OF first(2) lo1 hi1 cq1 assms(5) first(3), where i = i]
  have w2: "w2 = ?v2" by (simp only: w2_def w1 second(1) snd_conv)
  have "selection_ok (get_current_sequence w u (qid cq))"
    using assms(7) by (rule selection_ok_current)
  then have d: "distinct (filter is_VInt xs)"
    by (simp add: assms(6) selection_ok_def)
  then have d1: "distinct (filter is_VInt ?xs1)" by (rule toggled_selection_ok)
  have m1: "VInt j \<in> set ?xs1 \<longleftrightarrow> (if j = i then VInt i \<notin> set xs else VInt j \<in> set xs)"
    using d by (rule toggled_membership)
  have mi: "VInt i \<in> set ?xs1 \<longleftrightarrow> VInt i \<notin> set xs"
    using toggled_membership [OF d, of i i] by simp
  have m2: "VInt j \<in> set ?xs2 \<longleftrightarrow> (if j = i then VInt i \<notin> set ?xs1 else VInt j \<in> set ?xs1)"
    using d1 by (rule toggled_membership)
  have restored: "VInt j \<in> set ?xs2 \<longleftrightarrow> VInt j \<in> set xs"
    unfolding m2 using m1 mi by (cases "j = i") simp_all
  have a: "handle_test_button choice perm w u (QuizAnswer (qid cq) i) =
           (ShowedQuestion (format_question_keyboard cq),
            set_answer w u (qid cq) (VList ?xs1))"
    using first(1) by (simp add: set_answer_session [OF assms(1)])
  have b: "is_option_selected w u (qid cq) j = Inr (VInt j \<in> set xs)"
    by (simp add: is_option_selected_def assms(6) py_in_def)
  have c: "is_option_selected w1 u (qid cq) j
        = Inr (if j = i then VInt i \<notin> set xs else VInt j \<in> set xs)"
    unfolding w1 is_option_selected_def first(3) py_in_def using m1 by simp
  have e: "is_option_selected w2 u (qid cq) j = Inr (VInt j \<in> set xs)"
    unfolding w2 is_option_selected_def second(3) py_in_def using restored by simp
  have g1: "get_current_question w1 u = Inr (Some cq)"
    unfolding w1 using get_current_question_in_range [OF first(2) lo1 hi1] cq1 by simp
  have cq2: "cq = questions ?qd2 ! nat (current_question ?qd2)"
    using assms(4) by simp
  have lo2: "0 \<le> current_question ?qd2" and hi2: "current_question ?qd2 < len (questions ?qd2)"
    using assms(2,3) by simp_all
  have g2: "get_current_question w2 u = Inr (Some cq)"
    unfolding w2 using get_current_question_in_range [OF second(2) lo2 hi2] cq2 by simp
  have ok1: "selections_ok w1 u"
    unfolding w1_def using assms(7) by (rule handle_test_button_selections_ok)
  have ok2: "selections_ok w2 u"
    unfolding w2_def using ok1 by (rule handle_test_button_selections_ok)
  have e': "is_option_selected w2 u (qid cq) j = is_option_selected w u (qid cq) j"
    by (simp only: e b)
  show ?thesis by (intro conjI a b c e' g1 g2 ok1 ok2)
qed

theorem toggle_twice_restores_selection_witness:
  "selections_ok w_picked 5
   \<and> get_current_sequence w_picked 5 8 = VList [VInt 0, VInt 2]
   \<and> handle_test_button 0 [] w_picked 5 (QuizAnswer 8 0) =
        (ShowedQuestion (format_question_keyboard q_multi),
         set_answer w_picked 5 8 (VList [VInt 2]))
   \<and> handle_test_button 0 [] w_picked 5 (QuizAnswer 8 1) =
        (ShowedQuestion (format_question_keyboard q_multi),
         set_answer w_picked 5 8 (VList [VInt 0, VInt 2, VInt 1]))
   \<and> is_option_selected w_picked 5 8 0 = Inr True
   \<and> is_option_selected (snd (handle_test_button 0 [] w_picked 5 (QuizAnswer 8 0))) 5 8 0
        = Inr False
   \<and> is_option_selected (snd (handle_test_button 0 [] w_picked 5 (QuizAnswer 8 0))) 5 8 2
        = Inr True
   \<and> is_option_selected
        (snd (handle_test_button 0 []
                (snd (handle_test_button 0 [] w_picked 5 (QuizAnswer 8 0))) 5
                (QuizAnswer 8 0))) 5 8 0
        = Inr True
   \<and> get_current_question
        (snd (handle_test_button 0 []
                (snd (handle_test_button 0 [] w_picked 5 (QuizAnswer 8 0))) 5
                (QuizAnswer 8 0))) 5
        = Inr (Some q_multi)
   \<and> get_current_sequence (press_buttons w_picked 5 [QuizAnswer 8 0, QuizAnswer 8 0]) 5 8
        = VList [VInt 2, VInt 0]"
proof -
  let ?qa = "\<lparr>topic_id = 1, questions = [q_multi, q_single], current_question = 0,
             answers = [''8'' \<mapsto> VList [VInt 0, VInt 2]], start_time = 0,
             is_completed = False\<rparr>"
  have id8: "qid q_multi = 8" by (simp add: q_multi_def)
  have s: "active_quizzes w_picked 5 = Some ?qa" by (simp add: w_picked_def run_defs)
  have lo: "0 \<le> current_question ?qa" and hi: "current_question ?qa < len (questions ?qa)"
    by (simp_all add: len_def)
  have cq: "q_multi = questions ?qa ! nat (current_question ?qa)" by simp
  have ty: "question_type q_multi = ''multiple''" by (simp add: q_multi_def)
  have sel: "get_current_sequence w_picked 5 (qid q_multi) = VList [VInt 0, VInt 2]"
    by (simp add: get_current_sequence_def s id8)
  have ok: "selections_ok w_picked 5"
    by (auto simp add: selections_ok_def s selection_ok_def split: if_splits)
  note t00 = toggle_twice_restores_selection [OF s lo hi cq ty sel ok, of 0 "[]" 0 0,
      unfolded id8]
  note t02 = toggle_twice_restores_selection [OF s lo hi cq ty sel ok, of 0 "[]" 0 2,
      unfolded id8]
  note t11 = toggle_twice_restores_selection [OF s lo hi cq ty sel ok, of 0 "[]" 1 1,
      unfolded id8]
  have a: "handle_test_button 0 [] w_picked 5 (QuizAnswer 8 0) =
        (ShowedQuestion (format_question_keyboard q_multi),
         set_answer w_picked 5 8 (VList [VInt 2]))"
    using t00 [THEN conjunct1] by simp
  have a1: "handle_test_button 0 [] w_picked 5 (QuizAnswer 8 1) =
        (ShowedQuestion (format_question_keyboard q_multi),
         set_answer w_picked 5 8 (VList [VInt 0, VInt 2, VInt 1]))"
    using t11 [THEN conjunct1] by simp
  have b: "is_option_selected w_picked 5 8 0 = Inr True"
    using t00 [THEN conjunct2, THEN conjunct1] by simp
  have c0: "is_option_selected (snd (handle_test_button 0 [] w_picked 5 (QuizAnswer 8 0))) 5 8 0
        = Inr False"
    using t00 [THEN conjunct2, THEN conjunct2, THEN conjunct1] by simp
  have c2: "is_option_selected (snd (handle_test_button 0 [] w_picked 5 (QuizAnswer 8 0))) 5 8 2
        = Inr True"
    using t02 [THEN conjunct2, THEN conjunct2, THEN conjunct1] by simp
  have e: "is_option_selected
        (snd (handle_test_button 0 []
                (snd (handle_test_button 0 [] w_picked 5 (QuizAnswer 8 0))) 5
                (QuizAnswer 8 0))) 5 8 0
        = Inr True"
    using t00 [THEN conjunct2, THEN conjunct2, THEN conjunct2, THEN conjunct1] b
    by (simp only:)
  have g: "get_current_question
        (snd (handle_test_button 0 []
                (snd (handle_test_button 0 [] w_picked 5 (QuizAnswer 8 0))) 5
                (QuizAnswer 8 0))) 5
        = Inr (Some q_multi)"
    by (rule t00 [THEN conjunct2, THEN conjunct2, THEN conjunct2, THEN conjunct2,
          THEN conjunct2, THEN conjunct1])
  have sel0: "get_current_sequence w_picked 5 8 = VList [VInt 0, VInt 2]"
    using sel by (simp add: id8)
  have run: "get_current_sequence (press_buttons w_picked 5 [QuizAnswer 8 0, QuizAnswer 8 0]) 5 8
        = VList [VInt 2, VInt 0]"
    by (simp add: w_picked_def run_defs)
  show ?thesis by (intro conjI ok sel0 a a1 b c0 c2 e g run)
qed

end
